theory Spec2Isabelle
  imports Main "HOL-Library.Sublist"
begin

section \<open>The combobox of packages/combobox/src/LionCombobox.js\<close>

text \<open>
  The widget is a class over the DOM. Its fields, the nodes it reads and writes and the
  options of its listbox are records; a method is a function from the widget's state to
  the state it leaves. A JavaScript string is a \<^typ>\<open>string\<close> whose characters are the
  code points U+0000 to U+00FF, so \<open>length\<close> is the \<open>.length\<close> of the source.
\<close>

subsection \<open>Strings\<close>

text \<open>
  \<open>String.prototype.toLowerCase\<close> on the code points below U+0100: the letters A to Z and
  the capitals U+00C0 to U+00DE, the multiplication sign U+00D7 apart, move up by 32; every
  other character is its own lower case.
\<close>

definition toLowerChar :: "char \<Rightarrow> char" where
  "toLowerChar c =
     (let n = (of_char c :: nat)
      in if (65 \<le> n \<and> n \<le> 90) \<or> (192 \<le> n \<and> n \<le> 222 \<and> n \<noteq> 215)
         then char_of (n + 32) else c)"

definition toLowerCase :: "string \<Rightarrow> string" where
  "toLowerCase s = map toLowerChar s"

text \<open>
  \<open>String.prototype.indexOf(searchString)\<close>: the smallest position at which the search
  string starts, and \<open>-1\<close> when there is none. \<open>indexOfFrom s t k\<close> scans the rest \<open>s\<close> of
  the string, which starts at position \<open>k\<close>.
\<close>

fun indexOfFrom :: "string \<Rightarrow> string \<Rightarrow> nat \<Rightarrow> int" where
  "indexOfFrom [] t k = (if t = [] then int k else - 1)"
| "indexOfFrom (c # cs) t k =
     (if prefix t (c # cs) then int k else indexOfFrom cs t (Suc k))"

definition indexOf :: "string \<Rightarrow> string \<Rightarrow> int" where
  "indexOf s t = indexOfFrom s t 0"

subsection \<open>Options\<close>

text \<open>
  An option of the listbox. \<open>choiceValue\<close>, \<open>value\<close> (here \<open>optionValue\<close>), \<open>id\<close> (here
  \<open>optionId\<close>) and \<open>active\<close> are read by the
  combobox; what a filtering cycle writes is the option's presentation: its \<open>innerHTML\<close>,
  the saved \<open>__originalInnerHTML\<close> (absent until a first match), \<open>style.display\<close>, \<open>disabled\<close>
  and its attributes. An option may carry handlers \<open>onFilterUnmatch\<close> and \<open>onFilterMatch\<close> of
  its own, which the combobox calls in place of \<open>_onFilterUnmatch\<close> and \<open>_onFilterMatch\<close>;
  they are code of the extension, taken here as functions on the presentation of the option
  they belong to.
\<close>

record option_view =
  innerHTML :: string
  originalInnerHTML :: "string option"
  display :: string
  disabled :: bool
  attributes :: "string \<rightharpoonup> string"

record lion_option =
  choiceValue :: string
  optionValue :: string
  optionId :: string
  active :: bool
  view :: option_view
  onFilterUnmatch :: "(string \<Rightarrow> string \<Rightarrow> option_view \<Rightarrow> option_view) option"
  onFilterMatch :: "(string \<Rightarrow> option_view \<Rightarrow> option_view) option"

text \<open>\<open>filterOptionCondition(option, curValue)\<close>, with \<open>this.matchMode\<close> as first argument.\<close>

definition filterOptionCondition :: "string \<Rightarrow> lion_option \<Rightarrow> string \<Rightarrow> bool" where
  "filterOptionCondition mode opt curValue =
     (let idx = indexOf (toLowerCase (choiceValue opt)) (toLowerCase curValue)
      in if mode = ''all'' then idx > - 1 else idx = 0)"

subsection \<open>Errors\<close>

text \<open>
  What a method leaves: it returns, or it throws. A thrown exception keeps the writes made
  before it, so both cases carry the state.
\<close>

datatype js_error = TypeError | SyntaxError

datatype 'a completion = Normal 'a | Throw js_error 'a

fun stateOf :: "'a completion \<Rightarrow> 'a" where
  "stateOf (Normal s) = s"
| "stateOf (Throw e s) = s"

fun isNormal :: "'a completion \<Rightarrow> bool" where
  "isNormal (Normal s) = True"
| "isNormal (Throw e s) = False"

subsection \<open>The highlight of \<open>_onFilterMatch\<close>\<close>

text \<open>
  \<open>_onFilterMatch\<close> builds \<open>new RegExp(`(${matchingString})`, 'i')\<close> from the typed text and
  replaces its first match in \<open>innerHTML\<close> by \<open><b>$1</b>\<close>. The pattern language is the
  host's. Two of its cases are written out:
  \<^item> a text with no syntax character \<open>^ $ \ . * + ? ( ) [ ] { } |\<close> is a pattern that matches
    itself, letter case ignored, and the first occurrence is wrapped in \<open><b>\<close> and \<open></b>\<close>;
  \<^item> a text that starts with the quantifier \<open>*\<close> or \<open>+\<close> gives the pattern \<open>(*...)\<close> or
    \<open>(+...)\<close>, a quantifier with nothing to repeat, and the constructor throws a SyntaxError.
  Every other pattern is left to the engine, a parameter: it throws or returns the new text.
\<close>

type_synonym regexp_engine = "string \<Rightarrow> string \<Rightarrow> js_error + string"

definition syntaxCharacter :: "char \<Rightarrow> bool" where
  "syntaxCharacter c = (c \<in> set ''^$.*+?()[]{}|'' \<or> c = CHR 0x5C)"

definition startsWithQuantifier :: "string \<Rightarrow> bool" where
  "startsWithQuantifier m = (case m of [] \<Rightarrow> False | c # cs \<Rightarrow> c = CHR ''*'' \<or> c = CHR ''+'')"

definition wrapBold :: "string \<Rightarrow> nat \<Rightarrow> nat \<Rightarrow> string" where
  "wrapBold html k n =
     take k html @ ''<b>'' @ take n (drop k html) @ ''</b>'' @ drop (k + n) html"

definition replaceFirstMatch :: "regexp_engine \<Rightarrow> string \<Rightarrow> string \<Rightarrow> js_error + string" where
  "replaceFirstMatch engine html m =
     (if list_all (\<lambda>c. \<not> syntaxCharacter c) m then
        (let k = indexOf (toLowerCase html) (toLowerCase m)
         in if k < 0 then Inr html else Inr (wrapBold html (nat k) (length m)))
      else if startsWithQuantifier m then Inl SyntaxError
      else engine (''('' @ m @ '')'') html)"

text \<open>
  \<open>_onFilterMatch(option, matchingString)\<close> and \<open>_onFilterUnmatch(option, curValue, prevValue)\<close>
  of the combobox. \<open>__originalInnerHTML\<close> is assigned before the pattern is built, so it is
  written also when the constructor throws. \<open>innerHTML\<close> holds the text as it was assigned;
  the parsing and writing back of markup by the document is not in the model.
\<close>

definition combobox_onFilterMatch ::
  "regexp_engine \<Rightarrow> option_view \<Rightarrow> string \<Rightarrow> option_view completion" where
  "combobox_onFilterMatch engine v matchingString =
     (let v1 = v\<lparr>originalInnerHTML := Some (innerHTML v)\<rparr>
      in case replaceFirstMatch engine (innerHTML v) matchingString of
           Inl e \<Rightarrow> Throw e v1
         | Inr h \<Rightarrow> Normal (v1\<lparr>innerHTML := h, display := []\<rparr>))"

definition combobox_onFilterUnmatch :: "option_view \<Rightarrow> string \<Rightarrow> string \<Rightarrow> option_view" where
  "combobox_onFilterUnmatch v curValue prevValue =
     (let v1 = (case originalInnerHTML v of
                  None \<Rightarrow> v
                | Some h \<Rightarrow> if h = [] then v else v\<lparr>innerHTML := h\<rparr>)
      in v1\<lparr>display := ''none'', disabled := True\<rparr>)"

subsection \<open>Nodes and the widget\<close>

text \<open>The three listeners the class registers, by the method they are bound to.\<close>

datatype handler = ListboxOnKeyDown | TextboxOnInput | ShowOverlay

record dom_node =
  nodeId :: string
  slot :: string
  nodeAttributes :: "string \<rightharpoonup> string"
  nodeListeners :: "(string \<times> handler) list"

record input_node =
  inputValue :: string
  selectionStart :: nat
  selectionEnd :: nat
  inputAttributes :: "string \<rightharpoonup> string"
  inputListeners :: "(string \<times> handler) list"
  focused :: bool

text \<open>
  The overlay controller, as far as the class reads it: its content node and its popper, of
  which \<open>popperUpdates\<close> counts the calls of \<open>update()\<close> (\<open>None\<close>: there is no popper). The
  selection display is the optional slotted element; it is told of the combobox
  (\<open>comboboxElement\<close> is set) and of each update, when it has the method
  \<open>onComboboxElementUpdated\<close>; calling the method on an element without it throws a TypeError.

  The widget: its properties (\<open>disabledProp\<close> is the property \<open>disabled\<close>), the private fields
  \<open>__shouldAutocompleteNextUpdate\<close>, \<open>__cboxInputValue\<close>, \<open>__prevCboxValueNonSelected\<close> and
  \<open>__blockListShow\<close> without the underscores, \<open>formElements\<close>, the input node (its \<open>value\<close> is
  \<open>inputValue\<close>; it is created with the widget), and the nodes that a query may not find,
  which are optional: \<open>_comboboxNode\<close>, \<open>_labelNode\<close>, \<open>_selectionDisplayNode\<close> and
  \<open>_overlayCtrl\<close>. \<open>activeIndex\<close> and \<open>checkedIndex\<close> are accessors of the base class, held
  here as fields: what the base class's setter of \<open>activeIndex\<close> does besides (it is not part
  of this file) is not in the model. \<open>readOnly\<close> is \<open>None\<close> until it is assigned.
  \<open>childNodes\<close> is \<open>this.children\<close>, \<open>hostAttributes\<close> the attributes of the element itself.
\<close>

record overlay_ctrl =
  contentNode :: "dom_node option"
  popperUpdates :: "nat option"

record selection_display =
  comboboxElement :: bool
  hasOnComboboxElementUpdated :: bool
  updatesSeen :: "string list list"

record combobox =
  autocomplete :: string
  matchMode :: string
  disabledProp :: bool
  readOnly :: "bool option"
  multipleChoice :: bool
  shouldAutocompleteNextUpdate :: bool
  cboxInputValue :: string
  prevCboxValueNonSelected :: string
  blockListShow :: bool
  opened :: bool
  activeIndex :: int
  checkedIndex :: int
  formElements :: "lion_option list"
  inputNode :: input_node
  comboboxNode :: "dom_node option"
  labelNode :: "dom_node option"
  childNodes :: "dom_node list"
  hostAttributes :: "string \<rightharpoonup> string"
  selectionDisplayNode :: "selection_display option"
  overlayCtrl :: "overlay_ctrl option"

text \<open>\<open>`${n}`\<close> for a number \<open>n\<close> that is a natural number, and for a boolean.\<close>

function decimal :: "nat \<Rightarrow> string" where
  "decimal n =
     (if n < 10 then [''0123456789'' ! n]
      else decimal (n div 10) @ [''0123456789'' ! (n mod 10)])"
  by pat_completeness auto
termination
  by (relation "measure id") auto

declare decimal.simps [simp del]

definition boolString :: "bool \<Rightarrow> string" where
  "boolString b = (if b then ''true'' else ''false'')"

text \<open>\<open>`${v}`\<close> for a property that was never assigned (\<open>None\<close>) or holds a boolean.\<close>

definition optionalBoolString :: "bool option \<Rightarrow> string" where
  "optionalBoolString v = (case v of None \<Rightarrow> ''undefined'' | Some b \<Rightarrow> boolString b)"

subsection \<open>\<open>_handleAutocompletion\<close>\<close>

text \<open>
  Step [1] of the loop body: the option's own \<open>onFilterUnmatch\<close> when it has one,
  \<open>_onFilterUnmatch\<close> otherwise. Step [4]'s call is \<open>matchOption\<close>, likewise.
\<close>

definition unmatchOption :: "lion_option \<Rightarrow> string \<Rightarrow> string \<Rightarrow> lion_option" where
  "unmatchOption opt curValue prevValue =
     (case onFilterUnmatch opt of
        Some h \<Rightarrow> opt\<lparr>view := h curValue prevValue (view opt)\<rparr>
      | None \<Rightarrow> opt\<lparr>view := combobox_onFilterUnmatch (view opt) curValue prevValue\<rparr>)"

definition matchOption :: "regexp_engine \<Rightarrow> lion_option \<Rightarrow> string \<Rightarrow> lion_option completion" where
  "matchOption engine opt curValue =
     (case onFilterMatch opt of
        Some h \<Rightarrow> Normal (opt\<lparr>view := h curValue (view opt)\<rparr>)
      | None \<Rightarrow>
          (case combobox_onFilterMatch engine (view opt) curValue of
             Throw e v \<Rightarrow> Throw e (opt\<lparr>view := v\<rparr>)
           | Normal v \<Rightarrow> Normal (opt\<lparr>view := v\<rparr>)))"

text \<open>Step [3]: \<open>disabled = true\<close>, and the two position attributes removed.\<close>

definition cleanupOption :: "lion_option \<Rightarrow> lion_option" where
  "cleanupOption opt =
     opt\<lparr>view := (view opt)
       \<lparr>disabled := True,
        attributes := (attributes (view opt))(''aria-posinset'' := None, ''aria-setsize'' := None)\<rparr>\<rparr>"

text \<open>
  The state of the first \<open>forEach\<close>: the widget, \<open>visibleOptions\<close> and \<open>hasAutoFilled\<close>. The
  options are objects that the loop mutates in place and \<open>visibleOptions\<close> holds references
  to them: here an option is named by its index in \<open>formElements\<close>, and \<open>visibleOptions\<close> is a
  list of indices.
\<close>

type_synonym loop_state = "combobox \<times> nat list \<times> bool"

definition putOption :: "combobox \<Rightarrow> nat \<Rightarrow> lion_option \<Rightarrow> combobox" where
  "putOption s i opt = s\<lparr>formElements := (formElements s)[i := opt]\<rparr>"

text \<open>
  Step [5], the branch taken for the closest match, the option of index \<open>i\<close>. The input
  element keeps a selection offset within its value: an assigned \<open>selectionStart\<close> beyond the
  end of the value is the length of the value.
\<close>

definition autofill :: "combobox \<Rightarrow> nat \<Rightarrow> lion_option \<Rightarrow> combobox" where
  "autofill s i opt =
     (let s1 =
        (if autocomplete s = ''both'' then
           (let n1 = (inputNode s)\<lparr>inputValue := choiceValue opt\<rparr>;
                n2 = n1\<lparr>selectionStart :=
                          min (length (cboxInputValue s)) (length (inputValue n1))\<rparr>;
                n3 = n2\<lparr>selectionEnd := length (inputValue n2)\<rparr>
            in s\<lparr>inputNode := n3\<rparr>)
         else s)
      in s1\<lparr>activeIndex := int i\<rparr>)"

text \<open>The body of the first \<open>forEach\<close>, for the option of index \<open>i\<close>.\<close>

definition filterStep ::
  "regexp_engine \<Rightarrow> string \<Rightarrow> string \<Rightarrow> bool \<Rightarrow> loop_state \<Rightarrow> nat \<Rightarrow> loop_state completion" where
  "filterStep engine curValue prevValue userIsAddingChars st i =
     (case st of (s, visibleOptions, hasAutoFilled) \<Rightarrow>
        (let o1 = unmatchOption (formElements s ! i) curValue prevValue
         in if curValue = [] then Normal (putOption s i o1, visibleOptions @ [i], hasAutoFilled)
            else
              (let o2 = cleanupOption o1;
                   shown = filterOptionCondition (matchMode s) o2 curValue;
                   visibleOptions' = (if shown then visibleOptions @ [i] else visibleOptions)
               in case (if shown then matchOption engine o2 curValue else Normal o2) of
                    Throw e o3 \<Rightarrow> Throw e (putOption s i o3, visibleOptions', hasAutoFilled)
                  | Normal o3 \<Rightarrow>
                      (let s3 = putOption s i o3;
                           beginsWith =
                             (indexOf (toLowerCase (choiceValue o3)) (toLowerCase curValue) = 0)
                       in if beginsWith \<and> \<not> hasAutoFilled \<and> shown \<and> userIsAddingChars
                          then Normal (autofill s3 i o3, visibleOptions', True)
                          else Normal (s3, visibleOptions', hasAutoFilled)))))"

text \<open>\<open>forEach\<close> over the indices, left when the body throws.\<close>

fun forEachIndex ::
  "('st \<Rightarrow> nat \<Rightarrow> 'st completion) \<Rightarrow> nat list \<Rightarrow> 'st \<Rightarrow> 'st completion" where
  "forEachIndex body [] st = Normal st"
| "forEachIndex body (i # is) st =
     (case body st i of
        Throw e st' \<Rightarrow> Throw e st'
      | Normal st' \<Rightarrow> forEachIndex body is st')"

text \<open>Step [6], the second \<open>forEach\<close>: \<open>idx\<close> is the position in \<open>visibleOptions\<close>.\<close>

definition enableOption :: "nat \<Rightarrow> nat \<Rightarrow> lion_option \<Rightarrow> lion_option" where
  "enableOption idx n opt =
     opt\<lparr>view := (view opt)
       \<lparr>disabled := False,
        attributes := (attributes (view opt))
          (''aria-posinset'' \<mapsto> decimal (idx + 1), ''aria-setsize'' \<mapsto> decimal n)\<rparr>\<rparr>"

fun enableVisible :: "nat list \<Rightarrow> nat \<Rightarrow> nat \<Rightarrow> lion_option list \<Rightarrow> lion_option list" where
  "enableVisible [] idx n opts = opts"
| "enableVisible (i # is) idx n opts =
     enableVisible is (Suc idx) n (opts[i := enableOption idx n (opts ! i)])"

definition updatePopper :: "combobox \<Rightarrow> combobox" where
  "updatePopper s =
     (case overlayCtrl s of
        None \<Rightarrow> s
      | Some ctrl \<Rightarrow>
          (case popperUpdates ctrl of
             None \<Rightarrow> s
           | Some n \<Rightarrow> s\<lparr>overlayCtrl := Some (ctrl\<lparr>popperUpdates := Some (Suc n)\<rparr>)\<rparr>))"

definition filterLoop :: "regexp_engine \<Rightarrow> combobox \<Rightarrow> string \<Rightarrow> string \<Rightarrow> loop_state completion" where
  "filterLoop engine s curValue prevValue =
     forEachIndex (filterStep engine curValue prevValue (length prevValue < length curValue))
       [0 ..< length (formElements s)] (s, [], False)"

definition handleAutocompletion ::
  "regexp_engine \<Rightarrow> combobox \<Rightarrow> string \<Rightarrow> string \<Rightarrow> combobox completion" where
  "handleAutocompletion engine s curValue prevValue =
     (if autocomplete s = ''none'' then Normal s
      else
        (case filterLoop engine s curValue prevValue of
           Throw e (s1, visibleOptions, hasAutoFilled) \<Rightarrow> Throw e s1
         | Normal (s1, visibleOptions, hasAutoFilled) \<Rightarrow>
             (let s2 = s1\<lparr>formElements :=
                     enableVisible visibleOptions 0 (length visibleOptions) (formElements s1)\<rparr>;
                  s3 = s2\<lparr>prevCboxValueNonSelected :=
                     take (selectionStart (inputNode s2)) curValue\<rparr>
              in Normal (updatePopper s3))))"

text \<open>The options the cycle collects in \<open>visibleOptions\<close>, as indices of \<open>formElements\<close>.\<close>

definition visibleOptionsOf :: "regexp_engine \<Rightarrow> combobox \<Rightarrow> string \<Rightarrow> string \<Rightarrow> nat list" where
  "visibleOptionsOf engine s curValue prevValue =
     fst (snd (stateOf (filterLoop engine s curValue prevValue)))"

subsection \<open>Lifecycle callbacks and event handlers\<close>

text \<open>
  A method that starts with a call of the same method of a base class (\<open>LionListbox\<close> under
  \<open>OverlayMixin\<close>, which are not part of this file) takes that method as its first argument
  \<open>super\<close>, a function on the state.
\<close>

definition connectedCallback :: "(combobox \<Rightarrow> combobox) \<Rightarrow> combobox \<Rightarrow> combobox" where
  "connectedCallback super s =
     (let s0 = super s
      in case selectionDisplayNode s0 of
           None \<Rightarrow> s0
         | Some d \<Rightarrow> s0\<lparr>selectionDisplayNode := Some (d\<lparr>comboboxElement := True\<rparr>)\<rparr>)"

definition setInputAttribute :: "combobox \<Rightarrow> string \<Rightarrow> string \<Rightarrow> combobox" where
  "setInputAttribute s name v =
     s\<lparr>inputNode := (inputNode s)\<lparr>inputAttributes := (inputAttributes (inputNode s))(name \<mapsto> v)\<rparr>\<rparr>"

text \<open>
  \<open>updated(changedProperties)\<close>; \<open>changedProperties\<close> is the list of the names of the changed
  properties, and \<open>has\<close> is membership.
\<close>

definition updated ::
  "(string list \<Rightarrow> combobox \<Rightarrow> combobox) \<Rightarrow> regexp_engine \<Rightarrow> string list \<Rightarrow> combobox
     \<Rightarrow> combobox completion" where
  "updated super engine changedProperties s =
     (let s0 = super changedProperties s;
          s1 = (if ''autocomplete'' \<in> set changedProperties
                then setInputAttribute s0 ''aria-autocomplete'' (autocomplete s0) else s0);
          s2 = (if ''disabled'' \<in> set changedProperties
                then s1\<lparr>hostAttributes :=
                       (hostAttributes s1)(''aria-disabled'' \<mapsto> boolString (disabledProp s1))\<rparr>
                else s1)
      in case (if ''__shouldAutocompleteNextUpdate'' \<in> set changedProperties
                  \<and> shouldAutocompleteNextUpdate s2
               then (case handleAutocompletion engine s2
                            (cboxInputValue s2) (prevCboxValueNonSelected s2) of
                       Throw e s' \<Rightarrow> Throw e s'
                     | Normal s' \<Rightarrow> Normal (s'\<lparr>shouldAutocompleteNextUpdate := False\<rparr>))
               else Normal s2) of
           Throw e s3 \<Rightarrow> Throw e s3
         | Normal s3 \<Rightarrow>
             (case selectionDisplayNode s3 of
                None \<Rightarrow> Normal s3
              | Some d \<Rightarrow>
                  if hasOnComboboxElementUpdated d then
                    Normal (s3\<lparr>selectionDisplayNode :=
                              Some (d\<lparr>updatesSeen := updatesSeen d @ [changedProperties]\<rparr>)\<rparr>)
                  else Throw TypeError s3))"

text \<open>
  The getter \<open>_listboxNode\<close>: the overlay controller's content node, or else the first child
  in the slot \<open>listbox\<close>; \<open>None\<close> is \<open>undefined\<close>.
\<close>

definition listboxNode :: "combobox \<Rightarrow> dom_node option" where
  "listboxNode s =
     (case (case overlayCtrl s of None \<Rightarrow> None | Some ctrl \<Rightarrow> contentNode ctrl) of
        Some n \<Rightarrow> Some n
      | None \<Rightarrow> find (\<lambda>child. slot child = ''listbox'') (childNodes s))"

text \<open>
  \<open>addEventListener\<close> and \<open>removeEventListener\<close> on a node's list of listeners: a listener
  that is registered already for the event type is not added again.
\<close>

definition addEventListener ::
  "(string \<times> handler) list \<Rightarrow> string \<Rightarrow> handler \<Rightarrow> (string \<times> handler) list" where
  "addEventListener ls ty h = (if (ty, h) \<in> set ls then ls else ls @ [(ty, h)])"

definition removeEventListener ::
  "(string \<times> handler) list \<Rightarrow> string \<Rightarrow> handler \<Rightarrow> (string \<times> handler) list" where
  "removeEventListener ls ty h = filter (\<lambda>l. l \<noteq> (ty, h)) ls"

definition setNodeAttribute :: "dom_node \<Rightarrow> string \<Rightarrow> string \<Rightarrow> dom_node" where
  "setNodeAttribute n name v = n\<lparr>nodeAttributes := (nodeAttributes n)(name \<mapsto> v)\<rparr>"

text \<open>
  \<open>__setupCombobox\<close>. Reading a property of a node that is absent throws a TypeError, after
  the attributes written before it.
\<close>

definition setupCombobox :: "combobox \<Rightarrow> combobox completion" where
  "setupCombobox s =
     (case comboboxNode s of
        None \<Rightarrow> Throw TypeError s
      | Some c \<Rightarrow>
          (let c1 = setNodeAttribute c ''role'' ''combobox'';
               c2 = setNodeAttribute c1 ''aria-haspopup'' ''listbox'';
               c3 = setNodeAttribute c2 ''aria-expanded'' ''false'';
               s1 = s\<lparr>comboboxNode := Some c3\<rparr>
           in case listboxNode s1 of
                None \<Rightarrow> Throw TypeError s1
              | Some l \<Rightarrow>
                  (let s2 = s1\<lparr>comboboxNode := Some (setNodeAttribute c3 ''aria-owns'' (nodeId l))\<rparr>;
                       s3 = setInputAttribute s2 ''aria-autocomplete'' (autocomplete s2);
                       s4 = setInputAttribute s3 ''aria-controls'' (nodeId l)
                   in case labelNode s4 of
                        None \<Rightarrow> Throw TypeError s4
                      | Some lb \<Rightarrow>
                          (let s5 = setInputAttribute s4 ''aria-labelledby'' (nodeId lb);
                               ls1 = addEventListener (inputListeners (inputNode s5))
                                       ''keydown'' ListboxOnKeyDown;
                               ls2 = addEventListener ls1 ''input'' TextboxOnInput
                           in Normal (s5\<lparr>inputNode := (inputNode s5)\<lparr>inputListeners := ls2\<rparr>\<rparr>)))))"

definition teardownCombobox :: "combobox \<Rightarrow> combobox" where
  "teardownCombobox s =
     (let ls1 = removeEventListener (inputListeners (inputNode s)) ''keydown'' ListboxOnKeyDown;
          ls2 = removeEventListener ls1 ''input'' TextboxOnInput
      in s\<lparr>inputNode := (inputNode s)\<lparr>inputListeners := ls2\<rparr>\<rparr>)"

text \<open>\<open>_textboxOnInput(ev)\<close>, with \<open>ev.target.value\<close> as argument.\<close>

definition textboxOnInput :: "string \<Rightarrow> combobox \<Rightarrow> combobox" where
  "textboxOnInput targetValue s =
     s\<lparr>cboxInputValue := targetValue, shouldAutocompleteNextUpdate := True\<rparr>"

text \<open>
  \<open>__syncCheckedWithTextboxOnInteraction\<close>. \<open>checkedIndex\<close> is a getter of the base class,
  read here as a number; \<open>formElements[checkedIndex]\<close> is \<open>undefined\<close> when the number is no
  index of \<open>formElements\<close>, and reading \<open>.value\<close> of it throws a TypeError.
\<close>

definition syncCheckedWithTextboxOnInteraction :: "combobox \<Rightarrow> combobox completion" where
  "syncCheckedWithTextboxOnInteraction s =
     (if \<not> multipleChoice s then
        (if 0 \<le> checkedIndex s \<and> checkedIndex s < int (length (formElements s)) then
           Normal (s\<lparr>inputNode := (inputNode s)
                       \<lparr>inputValue := optionValue (formElements s ! nat (checkedIndex s))\<rparr>,
                     opened := False\<rparr>)
         else Throw TypeError s)
      else Normal s)"

definition listboxOnClick :: "(combobox \<Rightarrow> combobox) \<Rightarrow> combobox \<Rightarrow> combobox completion" where
  "listboxOnClick super s =
     (let s0 = super s;
          s1 = s0\<lparr>inputNode := (inputNode s0)\<lparr>focused := True\<rparr>\<rparr>
      in syncCheckedWithTextboxOnInteraction s1)"

definition setComboboxDisabledAndReadOnly :: "combobox \<Rightarrow> combobox" where
  "setComboboxDisabledAndReadOnly s =
     (case comboboxNode s of
        None \<Rightarrow> s
      | Some c \<Rightarrow>
          (let c1 = setNodeAttribute c ''disabled'' (boolString (disabledProp s));
               c2 = setNodeAttribute c1 ''readonly'' (optionalBoolString (readOnly s))
           in s\<lparr>comboboxNode := Some c2\<rparr>))"

definition requestUpdateInternal :: "(combobox \<Rightarrow> combobox) \<Rightarrow> string \<Rightarrow> combobox \<Rightarrow> combobox" where
  "requestUpdateInternal super name s =
     (let s0 = super s
      in if name = ''disabled'' \<or> name = ''readOnly''
         then setComboboxDisabledAndReadOnly s0 else s0)"

definition initFilterListbox :: "regexp_engine \<Rightarrow> combobox \<Rightarrow> combobox completion" where
  "initFilterListbox engine s =
     handleAutocompletion engine s (cboxInputValue s) (prevCboxValueNonSelected s)"

definition setupOverlayCtrl ::
  "(combobox \<Rightarrow> combobox) \<Rightarrow> regexp_engine \<Rightarrow> combobox \<Rightarrow> combobox completion" where
  "setupOverlayCtrl super engine s =
     (case initFilterListbox engine (super s) of
        Throw e s1 \<Rightarrow> Throw e s1
      | Normal s1 \<Rightarrow> setupCombobox s1)"

text \<open>\<open>__showOverlay(ev)\<close>, the listener of \<open>keyup\<close>, with \<open>ev.key\<close> as argument.\<close>

definition showOverlay :: "string \<Rightarrow> combobox \<Rightarrow> combobox" where
  "showOverlay key s =
     (if key = ''Tab'' \<or> key = ''Esc'' \<or> key = ''Enter'' \<or> blockListShow s then s
      else s\<lparr>opened := True\<rparr>)"

text \<open>The overlay's invoker node \<open>_overlayInvokerNode\<close> is \<open>_comboboxNode\<close>.\<close>

definition setupOpenCloseListeners ::
  "(combobox \<Rightarrow> combobox) \<Rightarrow> combobox \<Rightarrow> combobox completion" where
  "setupOpenCloseListeners super s =
     (let s0 = super s
      in case comboboxNode s0 of
           None \<Rightarrow> Throw TypeError s0
         | Some c \<Rightarrow>
             Normal (s0\<lparr>comboboxNode :=
               Some (c\<lparr>nodeListeners := addEventListener (nodeListeners c) ''keyup'' ShowOverlay\<rparr>)\<rparr>))"

definition teardownOpenCloseListeners ::
  "(combobox \<Rightarrow> combobox) \<Rightarrow> combobox \<Rightarrow> combobox completion" where
  "teardownOpenCloseListeners super s =
     (let s0 = super s
      in case comboboxNode s0 of
           None \<Rightarrow> Throw TypeError s0
         | Some c \<Rightarrow>
             Normal (s0\<lparr>comboboxNode :=
               Some (c\<lparr>nodeListeners := removeEventListener (nodeListeners c) ''keyup'' ShowOverlay\<rparr>)\<rparr>))"

text \<open>\<open>_onChildActiveChanged(ev)\<close>, with the option \<open>ev.target\<close> as argument.\<close>

definition onChildActiveChanged ::
  "(combobox \<Rightarrow> combobox) \<Rightarrow> lion_option \<Rightarrow> combobox \<Rightarrow> combobox" where
  "onChildActiveChanged super target s =
     (let s0 = super s
      in if active target then setInputAttribute s0 ''aria-activedescendant'' (optionId target)
         else s0)"

text \<open>\<open>_listboxOnKeyDown(ev)\<close>, the listener of \<open>keydown\<close>, with \<open>ev.key\<close> as argument.\<close>

definition listboxOnKeyDown ::
  "(combobox \<Rightarrow> combobox) \<Rightarrow> string \<Rightarrow> combobox \<Rightarrow> combobox completion" where
  "listboxOnKeyDown super key s =
     (let s0 = super s
      in if key = ''Escape'' then
           Normal (s0\<lparr>opened := False,
                      shouldAutocompleteNextUpdate := True,
                      inputNode := (inputNode s0)\<lparr>inputValue := []\<rparr>,
                      cboxInputValue := []\<rparr>)
         else if key = ''Enter'' then syncCheckedWithTextboxOnInteraction s0
         else Normal s0)"

subsection \<open>Reading the nodes\<close>

text \<open>
  \<open>getAttribute\<close> on the combobox node, its list of listeners, and the event types for which
  the input node or the combobox node has a listener. An absent combobox node has neither.
\<close>

definition comboboxAttribute :: "combobox \<Rightarrow> string \<Rightarrow> string option" where
  "comboboxAttribute s name =
     (case comboboxNode s of None \<Rightarrow> None | Some c \<Rightarrow> nodeAttributes c name)"

definition comboboxListeners :: "combobox \<Rightarrow> (string \<times> handler) list" where
  "comboboxListeners s = (case comboboxNode s of None \<Rightarrow> [] | Some c \<Rightarrow> nodeListeners c)"

definition listenedEventTypes :: "combobox \<Rightarrow> string set" where
  "listenedEventTypes s =
     set (map fst (inputListeners (inputNode s))) \<union> set (map fst (comboboxListeners s))"

text \<open>
  \<open>sameListeners s s'\<close>: the input node and the combobox node have in \<open>s'\<close> the listeners
  they have in \<open>s\<close>.
\<close>

definition sameListeners :: "combobox \<Rightarrow> combobox \<Rightarrow> bool" where
  "sameListeners s s' =
     (inputListeners (inputNode s') = inputListeners (inputNode s)
      \<and> comboboxListeners s' = comboboxListeners s)"

subsection \<open>A widget to run the methods on\<close>

text \<open>
  An option with no filter handlers of its own, shown and enabled, whose text is its
  \<open>choiceValue\<close>; and the widget as the constructor leaves it (\<open>autocomplete = 'both'\<close>,
  \<open>matchMode = 'all'\<close>, the two cached values empty) over given options, rendered with its
  combobox, listbox and label nodes, an empty text box, nothing active or checked (index
  \<open>-1\<close>), no selection display and no overlay controller yet.
\<close>

definition plainOption :: "string \<Rightarrow> string \<Rightarrow> lion_option" where
  "plainOption ident text =
     \<lparr>choiceValue = text, optionValue = text, optionId = ident, active = False,
      view = \<lparr>innerHTML = text, originalInnerHTML = None, display = [], disabled = False,
              attributes = Map.empty\<rparr>,
      onFilterUnmatch = None, onFilterMatch = None\<rparr>"

definition plainNode :: "string \<Rightarrow> string \<Rightarrow> dom_node" where
  "plainNode ident slotName =
     \<lparr>nodeId = ident, slot = slotName, nodeAttributes = Map.empty, nodeListeners = []\<rparr>"

definition newCombobox :: "lion_option list \<Rightarrow> combobox" where
  "newCombobox opts =
     \<lparr>autocomplete = ''both'', matchMode = ''all'', disabledProp = False, readOnly = None,
      multipleChoice = False, shouldAutocompleteNextUpdate = False,
      cboxInputValue = [], prevCboxValueNonSelected = [], blockListShow = False,
      opened = False, activeIndex = - 1, checkedIndex = - 1, formElements = opts,
      inputNode = \<lparr>inputValue = [], selectionStart = 0, selectionEnd = 0,
                   inputAttributes = Map.empty, inputListeners = [], focused = False\<rparr>,
      comboboxNode = Some (plainNode ''combobox'' []),
      labelNode = Some (plainNode ''label-1'' ''label''),
      childNodes = [plainNode ''label-1'' ''label'', plainNode ''listbox-1'' ''listbox''],
      hostAttributes = Map.empty, selectionDisplayNode = None, overlayCtrl = None\<rparr>"

text \<open>
  The widget after the user's typing left \<open>text\<close> in the text box, the cursor at its end, and
  the listener \<open>_textboxOnInput\<close> ran.
\<close>

definition typedInto :: "combobox \<Rightarrow> string \<Rightarrow> combobox" where
  "typedInto s text =
     textboxOnInput text
       (s\<lparr>inputNode := (inputNode s)
            \<lparr>inputValue := text, selectionStart := length text, selectionEnd := length text\<rparr>\<rparr>)"

text \<open>An example: \<open>ch\<close> typed over the options Artichoke, Chard and Victoria Plum.\<close>

definition vegetables :: combobox where
  "vegetables =
     typedInto (newCombobox [plainOption ''o1'' ''Artichoke'', plainOption ''o2'' ''Chard'',
                             plainOption ''o3'' ''Victoria Plum'']) ''ch''"

text \<open>An engine for the patterns that are not written out: it leaves the text as it is.\<close>

definition idleEngine :: regexp_engine where
  "idleEngine pattern html = Inr html"

subsection \<open>What a filtering cycle leaves alone\<close>

text \<open>
  \<open>keeps s s'\<close>: the state \<open>s'\<close> has everything of \<open>s\<close> that a cycle never writes: the
  properties, the flags and the checked index, the attributes of the host and of the input
  node, the listeners, the combobox, label and child nodes, the overlay's content node, the
  selection display and the open flag; and the same options by \<open>choiceValue\<close>, in the same
  order.
\<close>

definition keeps :: "combobox \<Rightarrow> combobox \<Rightarrow> bool" where
  "keeps s s' =
     (autocomplete s' = autocomplete s \<and> matchMode s' = matchMode s
      \<and> disabledProp s' = disabledProp s \<and> readOnly s' = readOnly s
      \<and> multipleChoice s' = multipleChoice s
      \<and> shouldAutocompleteNextUpdate s' = shouldAutocompleteNextUpdate s
      \<and> cboxInputValue s' = cboxInputValue s \<and> blockListShow s' = blockListShow s
      \<and> checkedIndex s' = checkedIndex s
      \<and> hostAttributes s' = hostAttributes s
      \<and> inputAttributes (inputNode s') = inputAttributes (inputNode s)
      \<and> inputListeners (inputNode s') = inputListeners (inputNode s)
      \<and> focused (inputNode s') = focused (inputNode s)
      \<and> comboboxNode s' = comboboxNode s \<and> labelNode s' = labelNode s
      \<and> childNodes s' = childNodes s
      \<and> (case overlayCtrl s' of None \<Rightarrow> None | Some ctrl \<Rightarrow> contentNode ctrl)
          = (case overlayCtrl s of None \<Rightarrow> None | Some ctrl \<Rightarrow> contentNode ctrl)
      \<and> selectionDisplayNode s' = selectionDisplayNode s
      \<and> opened s' = opened s
      \<and> map choiceValue (formElements s') = map choiceValue (formElements s))"

subsection \<open>Which options a cycle shows, and which one it completes to\<close>

text \<open>
  \<open>shownAt s curValue i\<close>: the option of index \<open>i\<close> is one the cycle pushes on
  \<open>visibleOptions\<close>: the text is empty (step [2]), or the option passes
  \<open>filterOptionCondition\<close> (step [4]). \<open>closestAt s curValue i\<close>: the option passes the filter
  and its \<open>choiceValue\<close> begins with the text, letter case ignored, which is the test of step
  [5] apart from \<open>hasAutoFilled\<close> and \<open>userIsAddingChars\<close>.
\<close>

definition shownAt :: "combobox \<Rightarrow> string \<Rightarrow> nat \<Rightarrow> bool" where
  "shownAt s curValue i =
     (curValue = [] \<or> filterOptionCondition (matchMode s) (formElements s ! i) curValue)"

definition closestAt :: "combobox \<Rightarrow> string \<Rightarrow> nat \<Rightarrow> bool" where
  "closestAt s curValue i =
     (filterOptionCondition (matchMode s) (formElements s ! i) curValue
      \<and> prefix (toLowerCase curValue) (toLowerCase (choiceValue (formElements s ! i))))"

section \<open>Properties\<close>

text \<open>The definitions that running a cycle on a given widget unfolds.\<close>

lemmas model_defs =
  handleAutocompletion_def filterLoop_def filterStep_def unmatchOption_def matchOption_def
  cleanupOption_def combobox_onFilterMatch_def combobox_onFilterUnmatch_def replaceFirstMatch_def
  syntaxCharacter_def startsWithQuantifier_def wrapBold_def filterOptionCondition_def indexOf_def
  toLowerCase_def toLowerChar_def putOption_def autofill_def enableOption_def updatePopper_def
  newCombobox_def plainOption_def plainNode_def typedInto_def textboxOnInput_def
  visibleOptionsOf_def char_of_def bit_0

subsection \<open>Searching a string\<close>

lemma indexOfFrom_range: "indexOfFrom s t k = - 1 \<or> int k \<le> indexOfFrom s t k"
  by (induction s arbitrary: k) (auto, force)

lemma indexOfFrom_start: "indexOfFrom s t k = int k \<longleftrightarrow> prefix t s"
proof (cases s)
  case Nil
  then show ?thesis by simp
next
  case (Cons c cs)
  have "indexOfFrom cs t (Suc k) \<noteq> int k"
    using indexOfFrom_range [of cs t "Suc k"] by auto
  with Cons show ?thesis by simp
qed

lemma indexOfFrom_found: "indexOfFrom s t k > - 1 \<longleftrightarrow> sublist t s"
proof (induction s arbitrary: k)
  case Nil
  then show ?case by simp
next
  case (Cons c cs)
  then show ?case by (simp add: sublist_Cons_right)
qed

lemma indexOf_zero: "indexOf s t = 0 \<longleftrightarrow> prefix t s"
  using indexOfFrom_start [of s t 0] by (simp add: indexOf_def)

lemma indexOf_found: "indexOf s t > - 1 \<longleftrightarrow> sublist t s"
  by (simp add: indexOf_def indexOfFrom_found)

text \<open>
  C2. \<open>filterOptionCondition(option, curValue)\<close> is true exactly when the lower-cased
  \<open>choiceValue\<close> contains the lower-cased \<open>curValue\<close> as a run of consecutive characters, if
  \<open>matchMode\<close> is \<open>'all'\<close>, and exactly when it begins with it, for every other \<open>matchMode\<close>.
\<close>

theorem filterOptionCondition_iff:
  "filterOptionCondition mode opt curValue =
     (if mode = ''all''
      then sublist (toLowerCase curValue) (toLowerCase (choiceValue opt))
      else prefix (toLowerCase curValue) (toLowerCase (choiceValue opt)))"
  by (simp add: filterOptionCondition_def indexOf_zero indexOf_found)

subsection \<open>The frame of the filtering loop\<close>

lemma keeps_refl: "keeps s s"
  by (simp add: keeps_def)

lemma keeps_trans: "keeps s s' \<Longrightarrow> keeps s' s'' \<Longrightarrow> keeps s s''"
  by (simp add: keeps_def)

lemma choiceValue_unmatchOption: "choiceValue (unmatchOption opt c p) = choiceValue opt"
  by (simp add: unmatchOption_def split: option.splits)

lemma choiceValue_cleanupOption: "choiceValue (cleanupOption opt) = choiceValue opt"
  by (simp add: cleanupOption_def)

lemma choiceValue_matchOption: "choiceValue (stateOf (matchOption engine opt c)) = choiceValue opt"
  by (simp add: matchOption_def split: option.splits completion.splits)

lemma choiceValue_update_same:
  assumes "choiceValue opt = choiceValue (opts ! i)"
  shows "map choiceValue (opts[i := opt]) = map choiceValue opts"
proof (cases "i < length opts")
  case True
  then show ?thesis using assms by (simp add: map_update list_update_same_conv)
next
  case False
  then show ?thesis by (simp add: list_update_beyond)
qed

lemma keeps_putOption:
  assumes "choiceValue opt = choiceValue (formElements s ! i)"
  shows "keeps s (putOption s i opt)"
proof -
  have "map choiceValue ((formElements s)[i := opt]) = map choiceValue (formElements s)"
    using assms by (rule choiceValue_update_same)
  then show ?thesis by (simp add: keeps_def putOption_def)
qed

lemma keeps_autofill: "keeps s (autofill s i opt)"
  by (simp add: keeps_def autofill_def Let_def)

lemma keeps_filterStep:
  assumes "i < length (formElements s)"
  shows "keeps s (fst (stateOf (filterStep engine c p a (s, vis, haf) i)))"
proof -
  let ?o1 = "unmatchOption (formElements s ! i) c p"
  let ?o2 = "cleanupOption ?o1"
  have k1: "keeps s (putOption s i ?o1)"
    by (simp add: keeps_putOption choiceValue_unmatchOption)
  have cv: "choiceValue (stateOf (matchOption engine ?o2 c)) = choiceValue (formElements s ! i)"
    by (simp add: choiceValue_matchOption choiceValue_cleanupOption choiceValue_unmatchOption)
  have k2: "keeps s (putOption s i ?o2)"
    by (simp add: keeps_putOption choiceValue_cleanupOption choiceValue_unmatchOption)
  have k3: "keeps s (putOption s i (stateOf (matchOption engine ?o2 c)))"
    using cv by (simp add: keeps_putOption)
  show ?thesis
    using k1 k2 k3 keeps_trans [OF k2 keeps_autofill] keeps_trans [OF k3 keeps_autofill]
    by (auto simp: filterStep_def Let_def split: completion.splits)
qed


lemma keeps_length:
  assumes "keeps s s'"
  shows "length (formElements s') = length (formElements s)"
proof -
  have "map choiceValue (formElements s') = map choiceValue (formElements s)"
    using assms by (simp add: keeps_def)
  then show ?thesis by (rule map_eq_imp_length_eq)
qed

lemma keeps_forEachIndex:
  assumes "\<forall>i \<in> set is. i < length (formElements s)"
  shows "keeps s (fst (stateOf (forEachIndex (filterStep engine c p a) is (s, vis, haf))))"
  using assms
proof (induction "is" arbitrary: s vis haf)
  case Nil
  show ?case by (simp add: keeps_refl)
next
  case (Cons i "is")
  have step: "keeps s (fst (stateOf (filterStep engine c p a (s, vis, haf) i)))"
    using Cons.prems by (simp add: keeps_filterStep)
  show ?case
  proof (cases "filterStep engine c p a (s, vis, haf) i")
    case (Throw e st')
    with step show ?thesis by simp
  next
    case (Normal st')
    obtain s' vis' haf' where st': "st' = (s', vis', haf')" by (cases st') auto
    have k: "keeps s s'" using step Normal st' by simp
    have "\<forall>i \<in> set is. i < length (formElements s')"
      using Cons.prems keeps_length [OF k] by simp
    from Cons.IH [OF this] have "keeps s' (fst (stateOf (forEachIndex (filterStep engine c p a) is (s', vis', haf'))))" .
    with k show ?thesis using Normal st' by (simp add: keeps_trans [OF k])
  qed
qed

lemma keeps_filterLoop: "keeps s (fst (stateOf (filterLoop engine s c p)))"
  unfolding filterLoop_def by (rule keeps_forEachIndex) simp

lemma keeps_updatePopper: "keeps s (updatePopper s)"
  by (simp add: keeps_def updatePopper_def split: option.splits)

lemma choiceValue_enableVisible:
  "map choiceValue (enableVisible vis idx n opts) = map choiceValue opts"
  by (induction vis arbitrary: idx opts) (simp_all add: choiceValue_update_same enableOption_def)

lemma keeps_handleAutocompletion: "keeps s (stateOf (handleAutocompletion engine s c p))"
proof (cases "autocomplete s = ''none''")
  case True
  then show ?thesis by (simp add: handleAutocompletion_def keeps_refl)
next
  case False
  have k: "keeps s (fst (stateOf (filterLoop engine s c p)))" by (rule keeps_filterLoop)
  show ?thesis
  proof (cases "filterLoop engine s c p")
    case (Throw e st)
    with k False show ?thesis by (auto simp: handleAutocompletion_def split: prod.splits)
  next
    case (Normal st)
    obtain s1 vis haf where st: "st = (s1, vis, haf)" by (cases st) auto
    have k1: "keeps s s1" using k Normal st by simp
    let ?s3 = "s1\<lparr>formElements := enableVisible vis 0 (length vis) (formElements s1),
                   prevCboxValueNonSelected := take (selectionStart (inputNode s1)) c\<rparr>"
    have "keeps s1 ?s3" by (simp add: keeps_def choiceValue_enableVisible)
    then have "keeps s (updatePopper ?s3)"
      using k1 keeps_updatePopper keeps_trans by blast
    then show ?thesis using False Normal st by (simp add: handleAutocompletion_def Let_def)
  qed
qed

subsection \<open>The cycle when autocompletion is off\<close>

text \<open>
  C10. When \<open>autocomplete\<close> is \<open>'none'\<close>, \<open>_handleAutocompletion\<close> returns at once and the
  widget is left exactly as it was: every option (its \<open>disabled\<close>, \<open>style.display\<close>,
  \<open>innerHTML\<close> and attributes), the text box's value and selection, the active index and the
  cached previous value are those of before the call.
\<close>

theorem handleAutocompletion_none:
  "autocomplete s = ''none'' \<Longrightarrow> handleAutocompletion engine s curValue prevValue = Normal s"
  by (simp add: handleAutocompletion_def)

theorem handleAutocompletion_none_witness:
  "autocomplete ((newCombobox [plainOption ''o1'' ''Chard''])\<lparr>autocomplete := ''none''\<rparr>) = ''none''
   \<and> handleAutocompletion idleEngine
         ((newCombobox [plainOption ''o1'' ''Chard''])\<lparr>autocomplete := ''none''\<rparr>) ''ch'' []
       = Normal ((newCombobox [plainOption ''o1'' ''Chard''])\<lparr>autocomplete := ''none''\<rparr>)"
  using handleAutocompletion_none
    [of "(newCombobox [plainOption ''o1'' ''Chard''])\<lparr>autocomplete := ''none''\<rparr>" idleEngine "''ch''" "[]"]
  by simp

subsection \<open>The update callback\<close>

text \<open>
  What \<open>updated\<close> leaves of the widget as it is after the two \<open>setAttribute\<close> calls (\<open>s2\<close>),
  whether it returns or throws: the two properties, the attributes of the host and of the
  input node, and the absence of a selection display.
\<close>

lemma updated_frame:
  fixes super :: "string list \<Rightarrow> combobox \<Rightarrow> combobox"
    and changedProperties :: "string list" and s :: combobox and engine :: regexp_engine
  defines "s0 \<equiv> super changedProperties s"
  defines "s1 \<equiv> (if ''autocomplete'' \<in> set changedProperties
                then setInputAttribute s0 ''aria-autocomplete'' (autocomplete s0) else s0)"
  defines "s2 \<equiv> (if ''disabled'' \<in> set changedProperties
                then s1\<lparr>hostAttributes :=
                       (hostAttributes s1)(''aria-disabled'' \<mapsto> boolString (disabledProp s1))\<rparr>
                else s1)"
  defines "r \<equiv> updated super engine changedProperties s"
  shows "autocomplete (stateOf r) = autocomplete s2"
    and "disabledProp (stateOf r) = disabledProp s2"
    and "hostAttributes (stateOf r) = hostAttributes s2"
    and "inputAttributes (inputNode (stateOf r)) = inputAttributes (inputNode s2)"
    and "selectionDisplayNode s2 = None \<Longrightarrow> selectionDisplayNode (stateOf r) = None"
    and "inputListeners (inputNode (stateOf r)) = inputListeners (inputNode s2)"
    and "comboboxNode (stateOf r) = comboboxNode s2"
proof -
  define go where "go = (''__shouldAutocompleteNextUpdate'' \<in> set changedProperties
                  \<and> shouldAutocompleteNextUpdate s2)"
  define h where "h = handleAutocompletion engine s2 (cboxInputValue s2) (prevCboxValueNonSelected s2)"
  define notify where "notify = (\<lambda>s3 :: combobox.
       case selectionDisplayNode s3 of
         None \<Rightarrow> Normal s3
       | Some d \<Rightarrow>
           if hasOnComboboxElementUpdated d then
             Normal (s3\<lparr>selectionDisplayNode :=
                       Some (d\<lparr>updatesSeen := updatesSeen d @ [changedProperties]\<rparr>)\<rparr>)
           else Throw TypeError s3)"
  have r: "r = (case (if go then (case h of Throw e s' \<Rightarrow> Throw e s'
                                | Normal s' \<Rightarrow> Normal (s'\<lparr>shouldAutocompleteNextUpdate := False\<rparr>))
                      else Normal s2) of
                  Throw e s3 \<Rightarrow> Throw e s3
                | Normal s3 \<Rightarrow> notify s3)"
    unfolding r_def updated_def s2_def s1_def s0_def go_def h_def notify_def Let_def ..
  have n: "autocomplete (stateOf (notify s3)) = autocomplete s3
           \<and> disabledProp (stateOf (notify s3)) = disabledProp s3
           \<and> hostAttributes (stateOf (notify s3)) = hostAttributes s3
           \<and> inputAttributes (inputNode (stateOf (notify s3))) = inputAttributes (inputNode s3)
           \<and> (selectionDisplayNode s3 = None \<longrightarrow> selectionDisplayNode (stateOf (notify s3)) = None)
           \<and> inputListeners (inputNode (stateOf (notify s3))) = inputListeners (inputNode s3)
           \<and> comboboxNode (stateOf (notify s3)) = comboboxNode s3"
    for s3
    by (cases "selectionDisplayNode s3") (simp_all add: notify_def)
  have kh: "keeps s2 (stateOf h)" unfolding h_def by (rule keeps_handleAutocompletion)
  have all: "autocomplete (stateOf r) = autocomplete s2
           \<and> disabledProp (stateOf r) = disabledProp s2
           \<and> hostAttributes (stateOf r) = hostAttributes s2
           \<and> inputAttributes (inputNode (stateOf r)) = inputAttributes (inputNode s2)
           \<and> (selectionDisplayNode s2 = None \<longrightarrow> selectionDisplayNode (stateOf r) = None)
           \<and> inputListeners (inputNode (stateOf r)) = inputListeners (inputNode s2)
           \<and> comboboxNode (stateOf r) = comboboxNode s2"
  proof (cases go)
    case False
    then show ?thesis using n [of s2] by (simp add: r)
  next
    case True
    show ?thesis
    proof (cases h)
      case (Throw e s')
      then show ?thesis using True kh by (simp add: r keeps_def)
    next
      case (Normal s')
      then show ?thesis
        using True kh n [of "s'\<lparr>shouldAutocompleteNextUpdate := False\<rparr>"]
        by (simp add: r keeps_def)
    qed
  qed
  then show "autocomplete (stateOf r) = autocomplete s2"
    and "disabledProp (stateOf r) = disabledProp s2"
    and "hostAttributes (stateOf r) = hostAttributes s2"
    and "inputAttributes (inputNode (stateOf r)) = inputAttributes (inputNode s2)"
    and "selectionDisplayNode s2 = None \<Longrightarrow> selectionDisplayNode (stateOf r) = None"
    and "inputListeners (inputNode (stateOf r)) = inputListeners (inputNode s2)"
    and "comboboxNode (stateOf r) = comboboxNode s2"
    by simp_all
qed

text \<open>
  C6. After \<open>updated(changedProperties)\<close>, whether it returned or threw, and whatever the base
  class's \<open>updated\<close> did first, the properties \<open>autocomplete\<close> and \<open>disabled\<close> are what the base
  class's \<open>updated\<close> left them, and they are mirrored: if \<open>autocomplete\<close> is among the changed
  properties, the input node's \<open>aria-autocomplete\<close> is that value of \<open>autocomplete\<close>; if
  \<open>disabled\<close> is among them, the host's \<open>aria-disabled\<close> is \<open>'true'\<close> when \<open>disabled\<close> is true and
  \<open>'false'\<close> when it is false.
\<close>

theorem updated_mirrors_properties:
  "autocomplete (stateOf (updated super engine changedProperties s))
     = autocomplete (super changedProperties s)
   \<and> disabledProp (stateOf (updated super engine changedProperties s))
     = disabledProp (super changedProperties s)
   \<and> (''autocomplete'' \<in> set changedProperties \<longrightarrow>
        inputAttributes (inputNode (stateOf (updated super engine changedProperties s)))
            ''aria-autocomplete''
          = Some (autocomplete (super changedProperties s)))
   \<and> (''disabled'' \<in> set changedProperties \<longrightarrow>
        hostAttributes (stateOf (updated super engine changedProperties s)) ''aria-disabled''
          = Some (if disabledProp (super changedProperties s) then ''true'' else ''false''))"
  unfolding updated_frame
  by (simp add: setInputAttribute_def boolString_def)

theorem updated_mirrors_properties_witness:
  "''autocomplete'' \<in> set [''autocomplete'', ''disabled'', ''__shouldAutocompleteNextUpdate'']
   \<and> inputAttributes (inputNode (stateOf (updated (\<lambda>cp s. s) idleEngine
         [''autocomplete'', ''disabled'', ''__shouldAutocompleteNextUpdate'']
         (vegetables\<lparr>autocomplete := ''list'', disabledProp := True\<rparr>))))
         ''aria-autocomplete'' = Some ''list''
   \<and> ''disabled'' \<in> set [''autocomplete'', ''disabled'', ''__shouldAutocompleteNextUpdate'']
   \<and> hostAttributes (stateOf (updated (\<lambda>cp s. s) idleEngine
         [''autocomplete'', ''disabled'', ''__shouldAutocompleteNextUpdate'']
         (vegetables\<lparr>autocomplete := ''list'', disabledProp := True\<rparr>)))
         ''aria-disabled'' = Some ''true''
   \<and> autocomplete (stateOf (updated (\<lambda>cp s. s) idleEngine
         [''autocomplete'', ''disabled'', ''__shouldAutocompleteNextUpdate'']
         (vegetables\<lparr>autocomplete := ''list'', disabledProp := True\<rparr>))) = ''list''
   \<and> disabledProp (stateOf (updated (\<lambda>cp s. s) idleEngine
         [''autocomplete'', ''disabled'', ''__shouldAutocompleteNextUpdate'']
         (vegetables\<lparr>autocomplete := ''list'', disabledProp := True\<rparr>)))"
  using updated_mirrors_properties [of "\<lambda>cp s. s" idleEngine
      "[''autocomplete'', ''disabled'', ''__shouldAutocompleteNextUpdate'']"
      "vegetables\<lparr>autocomplete := ''list'', disabledProp := True\<rparr>"]
  by simp

subsection \<open>The attributes written at set-up\<close>


lemma listboxNode_newCombobox: "listboxNode (newCombobox opts) = Some (plainNode ''listbox-1'' ''listbox'')"
  by (simp add: listboxNode_def newCombobox_def plainNode_def)

lemma setupCombobox_present:
  assumes "comboboxNode s = Some c" and "listboxNode s = Some l" and "labelNode s = Some lb"
  shows "setupCombobox s =
           Normal (s\<lparr>comboboxNode := Some (setNodeAttribute (setNodeAttribute (setNodeAttribute
                        (setNodeAttribute c ''role'' ''combobox'') ''aria-haspopup'' ''listbox'')
                        ''aria-expanded'' ''false'') ''aria-owns'' (nodeId l)),
                     inputNode := (inputNode s)
                       \<lparr>inputAttributes := (inputAttributes (inputNode s))
                          (''aria-autocomplete'' \<mapsto> autocomplete s,
                           ''aria-controls'' \<mapsto> nodeId l,
                           ''aria-labelledby'' \<mapsto> nodeId lb),
                        inputListeners := addEventListener
                          (addEventListener (inputListeners (inputNode s)) ''keydown'' ListboxOnKeyDown)
                          ''input'' TextboxOnInput\<rparr>\<rparr>)"
proof -
  have l: "listboxNode (s\<lparr>comboboxNode := x\<rparr>) = Some l" for x
    using assms(2) by (simp add: listboxNode_def split: option.splits)
  show ?thesis
    using assms(1,3) by (simp add: setupCombobox_def Let_def l setInputAttribute_def)
qed

text \<open>
  C7. \<open>__setupCombobox\<close>, the step of the overlay's set-up that writes the attributes: when
  the combobox, listbox and label nodes are there, it returns, the combobox node has
  \<open>role='combobox'\<close>, \<open>aria-haspopup='listbox'\<close>, \<open>aria-expanded='false'\<close> and \<open>aria-owns\<close> the
  listbox node's id, and the input node has \<open>aria-autocomplete\<close> the value of \<open>autocomplete\<close>,
  \<open>aria-controls\<close> the listbox node's id and \<open>aria-labelledby\<close> the label's id. And
  \<open>_onChildActiveChanged\<close> for an option that is active sets the input node's
  \<open>aria-activedescendant\<close> to the option's id.
\<close>

theorem setupCombobox_aria:
  "(comboboxNode s = Some c \<and> listboxNode s = Some l \<and> labelNode s = Some lb \<longrightarrow>
      isNormal (setupCombobox s)
      \<and> comboboxAttribute (stateOf (setupCombobox s)) ''role'' = Some ''combobox''
      \<and> comboboxAttribute (stateOf (setupCombobox s)) ''aria-haspopup'' = Some ''listbox''
      \<and> comboboxAttribute (stateOf (setupCombobox s)) ''aria-expanded'' = Some ''false''
      \<and> comboboxAttribute (stateOf (setupCombobox s)) ''aria-owns'' = Some (nodeId l)
      \<and> inputAttributes (inputNode (stateOf (setupCombobox s))) ''aria-autocomplete''
           = Some (autocomplete s)
      \<and> inputAttributes (inputNode (stateOf (setupCombobox s))) ''aria-controls''
           = Some (nodeId l)
      \<and> inputAttributes (inputNode (stateOf (setupCombobox s))) ''aria-labelledby''
           = Some (nodeId lb))
   \<and> (active target \<longrightarrow>
        inputAttributes (inputNode (onChildActiveChanged super target t)) ''aria-activedescendant''
          = Some (optionId target))"
proof -
  have "active target \<Longrightarrow>
        inputAttributes (inputNode (onChildActiveChanged super target t)) ''aria-activedescendant''
          = Some (optionId target)"
    by (simp add: onChildActiveChanged_def setInputAttribute_def Let_def)
  moreover have "comboboxNode s = Some c \<Longrightarrow> listboxNode s = Some l \<Longrightarrow> labelNode s = Some lb \<Longrightarrow>
      isNormal (setupCombobox s)
      \<and> comboboxAttribute (stateOf (setupCombobox s)) ''role'' = Some ''combobox''
      \<and> comboboxAttribute (stateOf (setupCombobox s)) ''aria-haspopup'' = Some ''listbox''
      \<and> comboboxAttribute (stateOf (setupCombobox s)) ''aria-expanded'' = Some ''false''
      \<and> comboboxAttribute (stateOf (setupCombobox s)) ''aria-owns'' = Some (nodeId l)
      \<and> inputAttributes (inputNode (stateOf (setupCombobox s))) ''aria-autocomplete''
           = Some (autocomplete s)
      \<and> inputAttributes (inputNode (stateOf (setupCombobox s))) ''aria-controls''
           = Some (nodeId l)
      \<and> inputAttributes (inputNode (stateOf (setupCombobox s))) ''aria-labelledby''
           = Some (nodeId lb)"
    by (simp add: setupCombobox_present comboboxAttribute_def setNodeAttribute_def)
  ultimately show ?thesis by blast
qed

theorem setupCombobox_aria_witness:
  "comboboxNode (newCombobox []) = Some (plainNode ''combobox'' [])
   \<and> listboxNode (newCombobox []) = Some (plainNode ''listbox-1'' ''listbox'')
   \<and> labelNode (newCombobox []) = Some (plainNode ''label-1'' ''label'')
   \<and> isNormal (setupCombobox (newCombobox []))
   \<and> comboboxAttribute (stateOf (setupCombobox (newCombobox []))) ''role'' = Some ''combobox''
   \<and> comboboxAttribute (stateOf (setupCombobox (newCombobox []))) ''aria-owns'' = Some ''listbox-1''
   \<and> inputAttributes (inputNode (stateOf (setupCombobox (newCombobox [])))) ''aria-autocomplete''
        = Some ''both''
   \<and> inputAttributes (inputNode (stateOf (setupCombobox (newCombobox [])))) ''aria-labelledby''
        = Some ''label-1''
   \<and> active ((plainOption ''o2'' ''Chard'')\<lparr>active := True\<rparr>)
   \<and> inputAttributes (inputNode (onChildActiveChanged (\<lambda>s. s)
          ((plainOption ''o2'' ''Chard'')\<lparr>active := True\<rparr>) (newCombobox [])))
        ''aria-activedescendant'' = Some ''o2''"
  using setupCombobox_aria [of "newCombobox []" "plainNode ''combobox'' []"
      "plainNode ''listbox-1'' ''listbox''" "plainNode ''label-1'' ''label''"
      "(plainOption ''o2'' ''Chard'')\<lparr>active := True\<rparr>" "\<lambda>s. s" "newCombobox []"]
    listboxNode_newCombobox [of "[]"]
  by (simp add: newCombobox_def plainNode_def plainOption_def)

subsection \<open>One step of the filtering loop\<close>

lemma filterOptionCondition_choiceValue:
  "choiceValue a = choiceValue b \<Longrightarrow> filterOptionCondition m a c = filterOptionCondition m b c"
  by (simp add: filterOptionCondition_def)

lemma matchOption_Normal_choiceValue:
  "matchOption engine opt c = Normal opt' \<Longrightarrow> choiceValue opt' = choiceValue opt"
  using choiceValue_matchOption [of engine opt c] by simp

lemma filterStep_empty:
  "filterStep engine [] p a (s, vis, haf) i =
     Normal (putOption s i (unmatchOption (formElements s ! i) [] p), vis @ [i], haf)"
  by (simp add: filterStep_def)

lemma filterStep_hidden:
  assumes "c \<noteq> []" and "\<not> filterOptionCondition (matchMode s) (formElements s ! i) c"
  shows "filterStep engine c p a (s, vis, haf) i =
     Normal (putOption s i (cleanupOption (unmatchOption (formElements s ! i) c p)), vis, haf)"
proof -
  have "\<not> filterOptionCondition (matchMode s) (cleanupOption (unmatchOption (formElements s ! i) c p)) c"
    using assms(2)
      filterOptionCondition_choiceValue [of "cleanupOption (unmatchOption (formElements s ! i) c p)" "formElements s ! i"]
    by (simp add: choiceValue_cleanupOption choiceValue_unmatchOption)
  then show ?thesis using assms(1) by (simp add: filterStep_def Let_def)
qed

lemma filterStep_shown:
  assumes "c \<noteq> []" and "filterOptionCondition (matchMode s) (formElements s ! i) c"
  shows "filterStep engine c p a (s, vis, haf) i =
     (case matchOption engine (cleanupOption (unmatchOption (formElements s ! i) c p)) c of
        Throw e o3 \<Rightarrow> Throw e (putOption s i o3, vis @ [i], haf)
      | Normal o3 \<Rightarrow>
          if closestAt s c i \<and> \<not> haf \<and> a
          then Normal (autofill (putOption s i o3) i o3, vis @ [i], True)
          else Normal (putOption s i o3, vis @ [i], haf))"
proof -
  let ?o2 = "cleanupOption (unmatchOption (formElements s ! i) c p)"
  have cv: "choiceValue ?o2 = choiceValue (formElements s ! i)"
    by (simp add: choiceValue_cleanupOption choiceValue_unmatchOption)
  have sh: "filterOptionCondition (matchMode s) ?o2 c"
    using assms(2) filterOptionCondition_choiceValue [OF cv] by simp
  show ?thesis
  proof (cases "matchOption engine ?o2 c")
    case (Throw e o3)
    then show ?thesis using assms(1) sh by (simp add: filterStep_def Let_def)
  next
    case (Normal o3)
    have "choiceValue o3 = choiceValue (formElements s ! i)"
      using matchOption_Normal_choiceValue [OF Normal] cv by simp
    then show ?thesis
      using assms Normal sh by (simp add: filterStep_def Let_def closestAt_def indexOf_zero)
  qed
qed


lemma formElements_autofill: "formElements (autofill s i opt) = formElements s"
  by (simp add: autofill_def Let_def)

lemma formElements_putOption: "formElements (putOption s i opt) = (formElements s)[i := opt]"
  by (simp add: putOption_def)

lemma filterStep_visible:
  assumes "filterStep engine c p a (s, vis, haf) i = Normal (s1, vis1, haf1)"
  shows "vis1 = (if shownAt s c i then vis @ [i] else vis)"
proof (cases "c = []")
  case True
  with assms show ?thesis by (simp add: filterStep_empty shownAt_def)
next
  case False
  show ?thesis
  proof (cases "filterOptionCondition (matchMode s) (formElements s ! i) c")
    case True
    with assms False show ?thesis
      by (auto simp: filterStep_shown shownAt_def split: completion.splits if_splits)
  next
    case nf: False
    with assms False show ?thesis by (simp add: filterStep_hidden shownAt_def)
  qed
qed

lemma filterStep_others:
  assumes "j \<noteq> i"
  shows "formElements (fst (stateOf (filterStep engine c p a (s, vis, haf) i))) ! j
           = formElements s ! j"
proof (cases "c = []")
  case True
  with assms show ?thesis by (simp add: filterStep_empty formElements_putOption)
next
  case False
  show ?thesis
  proof (cases "filterOptionCondition (matchMode s) (formElements s ! i) c")
    case True
    with assms False show ?thesis
      by (simp add: filterStep_shown formElements_putOption formElements_autofill
            split: completion.splits)
  next
    case nf: False
    with assms False show ?thesis by (simp add: filterStep_hidden formElements_putOption)
  qed
qed

lemma filterStep_hidden_disabled:
  assumes "c \<noteq> []" and "\<not> shownAt s c i" and "i < length (formElements s)"
  shows "disabled (view (formElements (fst (stateOf (filterStep engine c p a (s, vis, haf) i))) ! i))"
  using assms
  by (simp add: shownAt_def filterStep_hidden formElements_putOption cleanupOption_def)

lemma shownAt_keeps:
  assumes "keeps s s'" and "i < length (formElements s)"
  shows "shownAt s' c i = shownAt s c i"
proof -
  have "map choiceValue (formElements s') ! i = map choiceValue (formElements s) ! i"
    using assms(1) by (simp add: keeps_def)
  then have "choiceValue (formElements s' ! i) = choiceValue (formElements s ! i)"
    using assms keeps_length [OF assms(1)] by simp
  then show ?thesis
    using assms(1) filterOptionCondition_choiceValue [of "formElements s' ! i" "formElements s ! i"]
    by (simp add: shownAt_def keeps_def)
qed

subsection \<open>The filtering loop\<close>

lemma filterLoop_invariant:
  assumes "forEachIndex (filterStep engine c p a) is (s, vis, haf) = Normal (s', vis', haf')"
    and "distinct is" and "\<forall>i \<in> set is. i < length (formElements s)"
  shows "vis' = vis @ filter (shownAt s c) is
         \<and> (\<forall>j. j \<notin> set is \<longrightarrow> formElements s' ! j = formElements s ! j)
         \<and> (\<forall>i \<in> set is. c \<noteq> [] \<longrightarrow> \<not> shownAt s c i \<longrightarrow> disabled (view (formElements s' ! i)))"
  using assms
proof (induction "is" arbitrary: s vis haf)
  case Nil
  then show ?case by simp
next
  case (Cons i "is")
  from Cons.prems(1) obtain s1 vis1 haf1 where
    step: "filterStep engine c p a (s, vis, haf) i = Normal (s1, vis1, haf1)"
    and rest: "forEachIndex (filterStep engine c p a) is (s1, vis1, haf1) = Normal (s', vis', haf')"
    by (auto split: completion.splits)
  have i: "i < length (formElements s)" using Cons.prems(3) by simp
  have k: "keeps s s1" using keeps_filterStep [OF i, of engine c p a vis haf] step by simp
  have len: "length (formElements s1) = length (formElements s)" by (rule keeps_length [OF k])
  have v1: "vis1 = (if shownAt s c i then vis @ [i] else vis)" by (rule filterStep_visible [OF step])
  have oth: "\<And>j. j \<noteq> i \<Longrightarrow> formElements s1 ! j = formElements s ! j"
    using filterStep_others [of _ i engine c p a s vis haf] step by simp
  have hid: "c \<noteq> [] \<Longrightarrow> \<not> shownAt s c i \<Longrightarrow> disabled (view (formElements s1 ! i))"
    using filterStep_hidden_disabled [of c s i engine p a vis haf] i step by simp
  have d: "distinct is" and ni: "i \<notin> set is" using Cons.prems(2) by simp_all
  have b: "\<forall>j \<in> set is. j < length (formElements s1)" using Cons.prems(3) len by simp
  have IH: "vis' = vis1 @ filter (shownAt s1 c) is
         \<and> (\<forall>j. j \<notin> set is \<longrightarrow> formElements s' ! j = formElements s1 ! j)
         \<and> (\<forall>i \<in> set is. c \<noteq> [] \<longrightarrow> \<not> shownAt s1 c i \<longrightarrow> disabled (view (formElements s' ! i)))"
    by (rule Cons.IH [OF rest d b])
  have sh: "\<And>j. j \<in> set is \<Longrightarrow> shownAt s1 c j = shownAt s c j"
    using shownAt_keeps [OF k] Cons.prems(3) by simp
  have f: "filter (shownAt s1 c) is = filter (shownAt s c) is"
    using sh by (simp cong: filter_cong)
  have "vis' = vis @ filter (shownAt s c) (i # is)" using IH v1 f by simp
  moreover have "\<forall>j. j \<notin> set (i # is) \<longrightarrow> formElements s' ! j = formElements s ! j"
    using IH oth by simp
  moreover have "\<forall>j \<in> set (i # is). c \<noteq> [] \<longrightarrow> \<not> shownAt s c j \<longrightarrow> disabled (view (formElements s' ! j))"
  proof
    fix j assume j: "j \<in> set (i # is)"
    show "c \<noteq> [] \<longrightarrow> \<not> shownAt s c j \<longrightarrow> disabled (view (formElements s' ! j))"
    proof (cases "j = i")
      case True
      then show ?thesis using IH ni hid by simp
    next
      case False
      then have "j \<in> set is" using j by simp
      then show ?thesis using IH sh by simp
    qed
  qed
  ultimately show ?case by blast
qed


lemma length_enableVisible: "length (enableVisible vis idx n opts) = length opts"
  by (induction vis arbitrary: idx opts) simp_all

lemma enableVisible_others:
  "j \<notin> set vis \<Longrightarrow> enableVisible vis idx n opts ! j = opts ! j"
  by (induction vis arbitrary: idx opts) auto

lemma enableVisible_nth:
  assumes "distinct vis" and "\<forall>i \<in> set vis. i < length opts" and "k < length vis"
  shows "enableVisible vis idx n opts ! (vis ! k) = enableOption (idx + k) n (opts ! (vis ! k))"
  using assms
proof (induction vis arbitrary: idx opts k)
  case Nil
  then show ?case by simp
next
  case (Cons i vis)
  show ?case
  proof (cases k)
    case 0
    then show ?thesis using Cons.prems by (simp add: enableVisible_others)
  next
    case (Suc k')
    have ne: "vis ! k' \<noteq> i" using Cons.prems Suc by auto
    have "enableVisible vis (Suc idx) n (opts[i := enableOption idx n (opts ! i)]) ! (vis ! k')
            = enableOption (Suc idx + k') n ((opts[i := enableOption idx n (opts ! i)]) ! (vis ! k'))"
      using Cons.prems Suc by (intro Cons.IH) simp_all
    then show ?thesis using Suc ne by simp
  qed
qed

lemma filterLoop_visible:
  assumes "filterLoop engine s c p = Normal (s1, vis, haf)"
  shows "vis = filter (shownAt s c) [0 ..< length (formElements s)]"
  using filterLoop_invariant [of engine c p "length p < length c" "[0 ..< length (formElements s)]"
      s "[]" False s1 vis haf] assms
  by (simp add: filterLoop_def)

text \<open>
  A cycle that returns: \<open>visibleOptions\<close> holds the options that are shown, in list order;
  the option at position \<open>k\<close> of it has \<open>aria-posinset\<close> \<open>k + 1\<close>, \<open>aria-setsize\<close> the number of
  visible options, and is enabled; and an option that does not pass the filter of a text
  that is not empty is disabled.
\<close>

proposition visible_options_enabled:
  assumes "handleAutocompletion engine s c p = Normal s'" and "autocomplete s \<noteq> ''none''"
  shows "visibleOptionsOf engine s c p = filter (shownAt s c) [0 ..< length (formElements s)]"
    and "\<forall>k < length (visibleOptionsOf engine s c p).
           attributes (view (formElements s' ! (visibleOptionsOf engine s c p ! k))) ''aria-posinset''
             = Some (decimal (k + 1))
           \<and> attributes (view (formElements s' ! (visibleOptionsOf engine s c p ! k))) ''aria-setsize''
             = Some (decimal (length (visibleOptionsOf engine s c p)))
           \<and> \<not> disabled (view (formElements s' ! (visibleOptionsOf engine s c p ! k)))"
    and "\<forall>i < length (formElements s). c \<noteq> [] \<longrightarrow>
           \<not> filterOptionCondition (matchMode s) (formElements s ! i) c \<longrightarrow>
           disabled (view (formElements s' ! i))"
proof -
  from assms obtain s1 vis haf where
    loop: "filterLoop engine s c p = Normal (s1, vis, haf)"
    by (auto simp: handleAutocompletion_def split: completion.splits prod.splits)
  have s': "formElements s' = enableVisible vis 0 (length vis) (formElements s1)"
    using assms loop by (auto simp: handleAutocompletion_def Let_def updatePopper_def split: option.splits)
  have vo: "visibleOptionsOf engine s c p = vis" using loop by (simp add: visibleOptionsOf_def)
  have vis: "vis = filter (shownAt s c) [0 ..< length (formElements s)]"
    by (rule filterLoop_visible [OF loop])
  have k: "keeps s s1" using keeps_filterLoop [of s engine c p] loop by simp
  have len: "length (formElements s1) = length (formElements s)" by (rule keeps_length [OF k])
  have dv: "distinct vis" using vis by simp
  have bv: "\<forall>i \<in> set vis. i < length (formElements s1)" using vis len by simp
  show "visibleOptionsOf engine s c p = filter (shownAt s c) [0 ..< length (formElements s)]"
    using vo vis by simp
  show "\<forall>k < length (visibleOptionsOf engine s c p).
           attributes (view (formElements s' ! (visibleOptionsOf engine s c p ! k))) ''aria-posinset''
             = Some (decimal (k + 1))
           \<and> attributes (view (formElements s' ! (visibleOptionsOf engine s c p ! k))) ''aria-setsize''
             = Some (decimal (length (visibleOptionsOf engine s c p)))
           \<and> \<not> disabled (view (formElements s' ! (visibleOptionsOf engine s c p ! k)))"
    unfolding vo s' using enableVisible_nth [OF dv bv, of _ 0 "length vis"]
    by (simp add: enableOption_def)
  have inv: "\<forall>i \<in> set [0 ..< length (formElements s)].
               c \<noteq> [] \<longrightarrow> \<not> shownAt s c i \<longrightarrow> disabled (view (formElements s1 ! i))"
    using filterLoop_invariant [of engine c p "length p < length c" "[0 ..< length (formElements s)]"
      s "[]" False s1 vis haf] loop
    by (simp add: filterLoop_def)
  show "\<forall>i < length (formElements s). c \<noteq> [] \<longrightarrow>
           \<not> filterOptionCondition (matchMode s) (formElements s ! i) c \<longrightarrow>
           disabled (view (formElements s' ! i))"
  proof (intro allI impI)
    fix i assume i: "i < length (formElements s)" and c: "c \<noteq> []"
      and nf: "\<not> filterOptionCondition (matchMode s) (formElements s ! i) c"
    have ns: "\<not> shownAt s c i" using c nf by (simp add: shownAt_def)
    then have "i \<notin> set vis" using vis by simp
    then have "formElements s' ! i = formElements s1 ! i" unfolding s' by (rule enableVisible_others)
    then show "disabled (view (formElements s' ! i))" using inv i c ns by simp
  qed
qed


subsection \<open>The completion of the text box\<close>

lemma closestAt_keeps:
  assumes "keeps s s'" and "i < length (formElements s)"
  shows "closestAt s' c i = closestAt s c i"
proof -
  have "map choiceValue (formElements s') ! i = map choiceValue (formElements s) ! i"
    using assms(1) by (simp add: keeps_def)
  then have "choiceValue (formElements s' ! i) = choiceValue (formElements s ! i)"
    using assms keeps_length [OF assms(1)] by simp
  then show ?thesis
    using assms(1) filterOptionCondition_choiceValue [of "formElements s' ! i" "formElements s ! i"]
    by (simp add: closestAt_def keeps_def)
qed

lemma filterStep_no_fill:
  assumes "filterStep engine c p a (s, vis, haf) i = Normal (s1, vis1, haf1)"
    and "haf \<or> \<not> a \<or> c = [] \<or> \<not> closestAt s c i"
  shows "inputNode s1 = inputNode s \<and> activeIndex s1 = activeIndex s \<and> haf1 = haf"
proof (cases "c = []")
  case True
  with assms(1) show ?thesis by (auto simp: filterStep_empty putOption_def)
next
  case False
  show ?thesis
  proof (cases "filterOptionCondition (matchMode s) (formElements s ! i) c")
    case True
    with assms False show ?thesis
      by (auto simp: filterStep_shown putOption_def split: completion.splits if_splits)
  next
    case nf: False
    with assms(1) False show ?thesis by (auto simp: filterStep_hidden putOption_def)
  qed
qed

lemma filterStep_fill:
  assumes "filterStep engine c p a (s, vis, False) i = Normal (s1, vis1, haf1)"
    and "a" and "c \<noteq> []" and "closestAt s c i"
  shows "haf1 \<and> activeIndex s1 = int i \<and> i \<in> set vis1
         \<and> (autocomplete s = ''both'' \<longrightarrow>
              inputValue (inputNode s1) = choiceValue (formElements s ! i)
              \<and> selectionStart (inputNode s1)
                  = min (length (cboxInputValue s)) (length (choiceValue (formElements s ! i)))
              \<and> selectionEnd (inputNode s1) = length (choiceValue (formElements s ! i)))"
proof -
  have sh: "filterOptionCondition (matchMode s) (formElements s ! i) c"
    using assms(4) by (simp add: closestAt_def)
  from assms(1) obtain o3 where
    m: "matchOption engine (cleanupOption (unmatchOption (formElements s ! i) c p)) c = Normal o3"
    and r: "s1 = autofill (putOption s i o3) i o3" "vis1 = vis @ [i]" "haf1 = True"
    using assms(2,3,4) sh by (auto simp: filterStep_shown split: completion.splits)
  have "choiceValue o3 = choiceValue (formElements s ! i)"
    using matchOption_Normal_choiceValue [OF m]
    by (simp add: choiceValue_cleanupOption choiceValue_unmatchOption)
  then show ?thesis using r by (simp add: autofill_def putOption_def Let_def)
qed

lemma filterLoop_filled:
  assumes "forEachIndex (filterStep engine c p a) is (s, vis, True) = Normal (s', vis', haf')"
  shows "inputNode s' = inputNode s \<and> activeIndex s' = activeIndex s \<and> set vis \<subseteq> set vis'"
  using assms
proof (induction "is" arbitrary: s vis)
  case Nil
  then show ?case by simp
next
  case (Cons i "is")
  from Cons.prems obtain s1 vis1 haf1 where
    step: "filterStep engine c p a (s, vis, True) i = Normal (s1, vis1, haf1)"
    and rest: "forEachIndex (filterStep engine c p a) is (s1, vis1, haf1) = Normal (s', vis', haf')"
    by (auto split: completion.splits)
  have n: "inputNode s1 = inputNode s \<and> activeIndex s1 = activeIndex s \<and> haf1 = True"
    using filterStep_no_fill [OF step] by simp
  have "set vis \<subseteq> set vis1" using filterStep_visible [OF step] by auto
  then show ?case using Cons.IH [of s1 vis1] rest n by auto
qed

lemma filterLoop_first:
  assumes "forEachIndex (filterStep engine c p a) (pre @ i # post) (s, vis, False)
             = Normal (s', vis', haf')"
    and "a" and "c \<noteq> []" and "closestAt s c i" and "\<forall>j \<in> set pre. \<not> closestAt s c j"
    and "\<forall>j \<in> set (pre @ i # post). j < length (formElements s)"
  shows "activeIndex s' = int i \<and> i \<in> set vis'
         \<and> (autocomplete s = ''both'' \<longrightarrow>
              inputValue (inputNode s') = choiceValue (formElements s ! i)
              \<and> selectionStart (inputNode s')
                  = min (length (cboxInputValue s)) (length (choiceValue (formElements s ! i)))
              \<and> selectionEnd (inputNode s') = length (choiceValue (formElements s ! i)))"
  using assms
proof (induction pre arbitrary: s vis)
  case Nil
  from Nil.prems(1) obtain s1 vis1 haf1 where
    step: "filterStep engine c p a (s, vis, False) i = Normal (s1, vis1, haf1)"
    and rest: "forEachIndex (filterStep engine c p a) post (s1, vis1, haf1) = Normal (s', vis', haf')"
    by (auto split: completion.splits)
  have f: "haf1 \<and> activeIndex s1 = int i \<and> i \<in> set vis1
         \<and> (autocomplete s = ''both'' \<longrightarrow>
              inputValue (inputNode s1) = choiceValue (formElements s ! i)
              \<and> selectionStart (inputNode s1)
                  = min (length (cboxInputValue s)) (length (choiceValue (formElements s ! i)))
              \<and> selectionEnd (inputNode s1) = length (choiceValue (formElements s ! i)))"
    by (rule filterStep_fill [OF step Nil.prems(2,3,4)])
  then have rest': "forEachIndex (filterStep engine c p a) post (s1, vis1, True) = Normal (s', vis', haf')"
    using rest by simp
  show ?case using filterLoop_filled [OF rest'] f by auto
next
  case (Cons j pre)
  from Cons.prems(1) obtain s1 vis1 haf1 where
    step: "filterStep engine c p a (s, vis, False) j = Normal (s1, vis1, haf1)"
    and rest: "forEachIndex (filterStep engine c p a) (pre @ i # post) (s1, vis1, haf1)
                 = Normal (s', vis', haf')"
    by (auto split: completion.splits)
  have nj: "\<not> closestAt s c j" using Cons.prems(5) by simp
  have n: "inputNode s1 = inputNode s \<and> activeIndex s1 = activeIndex s \<and> haf1 = False"
    using filterStep_no_fill [OF step] nj by simp
  have jl: "j < length (formElements s)" using Cons.prems(6) by simp
  have k: "keeps s s1" using keeps_filterStep [OF jl, of engine c p a vis False] step by simp
  have len: "length (formElements s1) = length (formElements s)" by (rule keeps_length [OF k])
  have il: "i < length (formElements s)" using Cons.prems(6) by simp
  have cv: "choiceValue (formElements s1 ! i) = choiceValue (formElements s ! i)"
  proof -
    have "map choiceValue (formElements s1) ! i = map choiceValue (formElements s) ! i"
      using k by (simp add: keeps_def)
    then show ?thesis using il len by simp
  qed
  have rest': "forEachIndex (filterStep engine c p a) (pre @ i # post) (s1, vis1, False)
                 = Normal (s', vis', haf')"
    using rest n by simp
  have c1: "closestAt s1 c i" using closestAt_keeps [OF k il] Cons.prems(4) by simp
  have c2: "\<forall>j \<in> set pre. \<not> closestAt s1 c j"
    using closestAt_keeps [OF k] Cons.prems(5,6) by simp
  have c3: "\<forall>j \<in> set (pre @ i # post). j < length (formElements s1)"
    using Cons.prems(6) len by simp
  have "activeIndex s' = int i \<and> i \<in> set vis'
         \<and> (autocomplete s1 = ''both'' \<longrightarrow>
              inputValue (inputNode s') = choiceValue (formElements s1 ! i)
              \<and> selectionStart (inputNode s')
                  = min (length (cboxInputValue s1)) (length (choiceValue (formElements s1 ! i)))
              \<and> selectionEnd (inputNode s') = length (choiceValue (formElements s1 ! i)))"
    by (rule Cons.IH [OF rest' Cons.prems(2,3) c1 c2 c3])
  then show ?case using cv k by (simp add: keeps_def)
qed


lemma upt_split: "i < n \<Longrightarrow> [0 ..< n] = [0 ..< i] @ i # [Suc i ..< n]"
proof -
  assume i: "i < n"
  have "[0 ..< n] = [0 ..< i] @ [i ..< n]"
    using upt_add_eq_append [of 0 i "n - i"] i by simp
  then show ?thesis using i by (simp add: upt_conv_Cons)
qed

lemma inputNode_updatePopper: "inputNode (updatePopper s) = inputNode s"
  by (simp add: updatePopper_def split: option.splits)

lemma activeIndex_updatePopper: "activeIndex (updatePopper s) = activeIndex s"
  by (simp add: updatePopper_def split: option.splits)

text \<open>
  A cycle that returns, with \<open>autocomplete = 'both'\<close>, a text that is not empty and longer
  than the previous one: the first option in list order that passes the filter and begins
  with the text gives the text box its \<open>choiceValue\<close>, selected from the length of
  \<open>__cboxInputValue\<close> (from the end of the value, if that comes first) to its end, and is the
  active index and one of the visible options.
\<close>

proposition closest_match_completed:
  assumes "handleAutocompletion engine s c p = Normal s'"
    and "autocomplete s = ''both''" and "c \<noteq> []" and "length p < length c"
    and "i < length (formElements s)" and "closestAt s c i" and "\<forall>j < i. \<not> closestAt s c j"
  shows "inputValue (inputNode s') = choiceValue (formElements s ! i)
         \<and> selectionStart (inputNode s')
                  = min (length (cboxInputValue s)) (length (choiceValue (formElements s ! i)))
         \<and> selectionEnd (inputNode s') = length (choiceValue (formElements s ! i))
         \<and> activeIndex s' = int i
         \<and> i \<in> set (visibleOptionsOf engine s c p)"
proof -
  have nn: "autocomplete s \<noteq> ''none''" using assms(2) by simp
  from assms(1) nn obtain s1 vis haf where
    loop: "filterLoop engine s c p = Normal (s1, vis, haf)"
    by (auto simp: handleAutocompletion_def split: completion.splits prod.splits)
  have s': "inputNode s' = inputNode s1 \<and> activeIndex s' = activeIndex s1"
    using assms(1) nn loop
    by (auto simp: handleAutocompletion_def Let_def inputNode_updatePopper activeIndex_updatePopper)
  have vo: "visibleOptionsOf engine s c p = vis" using loop by (simp add: visibleOptionsOf_def)
  have run: "forEachIndex (filterStep engine c p (length p < length c))
               ([0 ..< i] @ i # [Suc i ..< length (formElements s)]) (s, [], False)
             = Normal (s1, vis, haf)"
    using loop upt_split [OF assms(5)] by (simp add: filterLoop_def)
  have "activeIndex s1 = int i \<and> i \<in> set vis
         \<and> (autocomplete s = ''both'' \<longrightarrow>
              inputValue (inputNode s1) = choiceValue (formElements s ! i)
              \<and> selectionStart (inputNode s1)
                  = min (length (cboxInputValue s)) (length (choiceValue (formElements s ! i)))
              \<and> selectionEnd (inputNode s1) = length (choiceValue (formElements s ! i)))"
    using assms(5,7) by (intro filterLoop_first [OF run assms(4) assms(3) assms(6)]) auto
  then show ?thesis using s' vo assms(2) by simp
qed

text \<open>
  Both callers, \<open>updated\<close> and \<open>__initFilterListbox\<close>, pass \<open>__cboxInputValue\<close> as \<open>curValue\<close>:
  then the selection starts at the length of the typed text.
\<close>

corollary closest_match_completed_typed:
  assumes "handleAutocompletion engine s (cboxInputValue s) p = Normal s'"
    and "autocomplete s = ''both''" and "cboxInputValue s \<noteq> []"
    and "length p < length (cboxInputValue s)"
    and "i < length (formElements s)" and "closestAt s (cboxInputValue s) i"
    and "\<forall>j < i. \<not> closestAt s (cboxInputValue s) j"
  shows "inputValue (inputNode s') = choiceValue (formElements s ! i)"
    and "selectionStart (inputNode s') = length (cboxInputValue s)"
    and "selectionEnd (inputNode s') = length (choiceValue (formElements s ! i))"
    and "activeIndex s' = int i"
proof -
  have "prefix (toLowerCase (cboxInputValue s)) (toLowerCase (choiceValue (formElements s ! i)))"
    using assms(6) by (simp add: closestAt_def)
  then have "length (toLowerCase (cboxInputValue s))
               \<le> length (toLowerCase (choiceValue (formElements s ! i)))"
    by (rule prefix_length_le)
  then have le: "length (cboxInputValue s) \<le> length (choiceValue (formElements s ! i))"
    by (simp add: toLowerCase_def)
  show "inputValue (inputNode s') = choiceValue (formElements s ! i)"
    and "selectionStart (inputNode s') = length (cboxInputValue s)"
    and "selectionEnd (inputNode s') = length (choiceValue (formElements s ! i))"
    and "activeIndex s' = int i"
    using closest_match_completed [OF assms] le by simp_all
qed

text \<open>
  Such a cycle, run: \<open>ch\<close> typed over Artichoke, Chard and Victoria Plum, with the default
  \<open>matchMode = 'all'\<close>. Artichoke and Chard are shown and numbered 1 and 2 of 2, Victoria Plum
  is hidden and disabled; the text box is completed to Chard, the first shown option that
  begins with \<open>ch\<close>, with \<open>ard\<close> selected.
\<close>

lemma cycle_example:
  "handleAutocompletion engine vegetables ''ch'' []
     = Normal (stateOf (handleAutocompletion engine vegetables ''ch'' []))
   \<and> map (\<lambda>opt. (innerHTML (view opt), display (view opt), disabled (view opt),
                  attributes (view opt) ''aria-posinset'', attributes (view opt) ''aria-setsize''))
        (formElements (stateOf (handleAutocompletion engine vegetables ''ch'' [])))
       = [(''Arti<b>ch</b>oke'', [], False, Some ''1'', Some ''2''),
          (''<b>Ch</b>ard'', [], False, Some ''2'', Some ''2''),
          (''Victoria Plum'', ''none'', True, None, None)]
   \<and> inputValue (inputNode (stateOf (handleAutocompletion engine vegetables ''ch'' []))) = ''Chard''
   \<and> selectionStart (inputNode (stateOf (handleAutocompletion engine vegetables ''ch'' []))) = 2
   \<and> selectionEnd (inputNode (stateOf (handleAutocompletion engine vegetables ''ch'' []))) = 5
   \<and> activeIndex (stateOf (handleAutocompletion engine vegetables ''ch'' [])) = 1
   \<and> prevCboxValueNonSelected (stateOf (handleAutocompletion engine vegetables ''ch'' [])) = ''ch''"
  by (simp add: vegetables_def model_defs Let_def decimal.simps)

text \<open>The two propositions above, at this cycle: their hypotheses hold there.\<close>

lemma visible_options_enabled_example:
  "visibleOptionsOf engine vegetables ''ch'' [] = [0, 1]
   \<and> \<not> disabled (view (formElements (stateOf (handleAutocompletion engine vegetables ''ch'' [])) ! 1))
   \<and> disabled (view (formElements (stateOf (handleAutocompletion engine vegetables ''ch'' [])) ! 2))"
proof -
  let ?s' = "stateOf (handleAutocompletion engine vegetables ''ch'' [])"
  have r: "handleAutocompletion engine vegetables ''ch'' [] = Normal ?s'"
    using cycle_example [of engine] by simp
  have a: "autocomplete vegetables \<noteq> ''none''"
    by (simp add: vegetables_def typedInto_def textboxOnInput_def newCombobox_def)
  have f: "formElements vegetables =
             [plainOption ''o1'' ''Artichoke'', plainOption ''o2'' ''Chard'',
              plainOption ''o3'' ''Victoria Plum'']"
    and m: "matchMode vegetables = ''all''"
    by (simp_all add: vegetables_def typedInto_def textboxOnInput_def newCombobox_def)
  have sh: "filter (shownAt vegetables ''ch'') [0 ..< length (formElements vegetables)] = [0, 1]"
    by (simp add: f m shownAt_def upt_rec filterOptionCondition_def indexOf_def toLowerCase_def
          toLowerChar_def plainOption_def char_of_def bit_0)
  have nf: "\<not> filterOptionCondition (matchMode vegetables) (formElements vegetables ! 2) ''ch''"
    by (simp add: f m filterOptionCondition_def indexOf_def toLowerCase_def
          toLowerChar_def plainOption_def char_of_def bit_0)
  have v: "visibleOptionsOf engine vegetables ''ch'' [] = [0, 1]"
    using visible_options_enabled(1) [OF r a] sh by simp
  have "\<not> disabled (view (formElements ?s' ! (visibleOptionsOf engine vegetables ''ch'' [] ! 1)))"
    using visible_options_enabled(2) [OF r a, rule_format, of 1] v by simp
  moreover have "disabled (view (formElements ?s' ! 2))"
    using visible_options_enabled(3) [OF r a, rule_format, of 2] nf by (simp add: f)
  ultimately show ?thesis using v by simp
qed

lemma closest_match_completed_example:
  "inputValue (inputNode (stateOf (handleAutocompletion engine vegetables ''ch'' []))) = ''Chard''
   \<and> activeIndex (stateOf (handleAutocompletion engine vegetables ''ch'' [])) = 1"
proof -
  let ?s' = "stateOf (handleAutocompletion engine vegetables ''ch'' [])"
  have r: "handleAutocompletion engine vegetables ''ch'' [] = Normal ?s'"
    using cycle_example [of engine] by simp
  have a: "autocomplete vegetables = ''both''"
    by (simp add: vegetables_def typedInto_def textboxOnInput_def newCombobox_def)
  have f: "formElements vegetables =
             [plainOption ''o1'' ''Artichoke'', plainOption ''o2'' ''Chard'',
              plainOption ''o3'' ''Victoria Plum'']"
    and m: "matchMode vegetables = ''all''"
    by (simp_all add: vegetables_def typedInto_def textboxOnInput_def newCombobox_def)
  have c1: "closestAt vegetables ''ch'' 1"
    by (simp add: f m closestAt_def filterOptionCondition_def indexOf_def toLowerCase_def
          toLowerChar_def plainOption_def char_of_def bit_0)
  have c0: "\<not> closestAt vegetables ''ch'' 0"
    by (simp add: f m closestAt_def filterOptionCondition_def indexOf_def toLowerCase_def
          toLowerChar_def plainOption_def char_of_def bit_0)
  have "\<forall>j < 1. \<not> closestAt vegetables ''ch'' j" using c0 by simp
  from closest_match_completed [OF r a _ _ _ c1 this]
  show ?thesis by (simp add: f plainOption_def)
qed

subsection \<open>When a cycle returns\<close>

text \<open>
  A typed text with no syntax character of the pattern language cannot make the highlight
  throw: the cycle returns, whatever the engine does on other patterns.
\<close>

lemma replaceFirstMatch_literal:
  "list_all (\<lambda>ch. \<not> syntaxCharacter ch) c \<Longrightarrow> isl (replaceFirstMatch engine html c) = False"
  by (simp add: replaceFirstMatch_def Let_def)

lemma matchOption_literal:
  assumes "list_all (\<lambda>ch. \<not> syntaxCharacter ch) c"
  shows "isNormal (matchOption engine opt c)"
proof (cases "replaceFirstMatch engine (innerHTML (view opt)) c")
  case (Inl e)
  then show ?thesis using replaceFirstMatch_literal [OF assms, of engine "innerHTML (view opt)"] by simp
next
  case (Inr h)
  then show ?thesis
    by (simp add: matchOption_def combobox_onFilterMatch_def Let_def split: option.splits)
qed

lemma filterStep_literal:
  assumes "list_all (\<lambda>ch. \<not> syntaxCharacter ch) c"
  shows "isNormal (filterStep engine c p a st i)"
proof -
  obtain s vis haf where st: "st = (s, vis, haf)" by (cases st) auto
  show ?thesis
  proof (cases "c = []")
    case True
    then show ?thesis using st by (simp add: filterStep_empty)
  next
    case False
    show ?thesis
    proof (cases "filterOptionCondition (matchMode s) (formElements s ! i) c")
      case True
      then show ?thesis
        using st False matchOption_literal [OF assms, of engine
            "cleanupOption (unmatchOption (formElements s ! i) c p)"]
        by (cases "matchOption engine (cleanupOption (unmatchOption (formElements s ! i) c p)) c")
           (simp_all add: filterStep_shown)
    next
      case nf: False
      then show ?thesis using st False by (simp add: filterStep_hidden)
    qed
  qed
qed

lemma forEachIndex_isNormal:
  assumes "\<And>st i. isNormal (body st i)"
  shows "isNormal (forEachIndex body is st)"
proof (induction "is" arbitrary: st)
  case Nil
  show ?case by simp
next
  case (Cons i "is")
  show ?case using assms [of st i] Cons.IH by (cases "body st i") simp_all
qed

proposition literal_text_completes:
  assumes "list_all (\<lambda>ch. \<not> syntaxCharacter ch) c"
  shows "isNormal (handleAutocompletion engine s c p)"
proof -
  have "isNormal (filterLoop engine s c p)"
    unfolding filterLoop_def by (rule forEachIndex_isNormal) (rule filterStep_literal [OF assms])
  then show ?thesis
    by (cases "filterLoop engine s c p") (simp_all add: handleAutocompletion_def Let_def split: prod.splits)
qed


subsection \<open>The cycle on an empty text box\<close>

lemma display_enableVisible:
  "display (view (enableVisible vis idx n opts ! j)) = display (view (opts ! j))"
proof (induction vis arbitrary: idx opts)
  case Nil
  show ?case by simp
next
  case (Cons i vis)
  have "display (view ((opts[i := enableOption idx n (opts ! i)]) ! j)) = display (view (opts ! j))"
    by (cases "i < length opts"; cases "j = i")
       (simp_all add: enableOption_def list_update_beyond)
  then show ?case using Cons.IH [of "Suc idx" "opts[i := enableOption idx n (opts ! i)]"] by simp
qed

lemma display_unmatchOption:
  "onFilterUnmatch opt = None \<Longrightarrow> display (view (unmatchOption opt c p)) = ''none''"
  by (simp add: unmatchOption_def combobox_onFilterUnmatch_def Let_def)

lemma filterLoop_empty_options:
  assumes "forEachIndex (filterStep engine [] p a) is (s, vis, haf) = Normal (s', vis', haf')"
    and "distinct is" and "\<forall>i \<in> set is. i < length (formElements s)"
  shows "\<forall>i \<in> set is. formElements s' ! i = unmatchOption (formElements s ! i) [] p"
  using assms
proof (induction "is" arbitrary: s vis haf)
  case Nil
  then show ?case by simp
next
  case (Cons i "is")
  let ?s1 = "putOption s i (unmatchOption (formElements s ! i) [] p)"
  have rest: "forEachIndex (filterStep engine [] p a) is (?s1, vis @ [i], haf) = Normal (s', vis', haf')"
    using Cons.prems(1) by (simp add: filterStep_empty)
  have i: "i < length (formElements s)" and ni: "i \<notin> set is" and d: "distinct is"
    using Cons.prems(2,3) by simp_all
  have b: "\<forall>j \<in> set is. j < length (formElements ?s1)"
    using Cons.prems(3) by (simp add: formElements_putOption)
  have IH: "\<forall>j \<in> set is. formElements s' ! j = unmatchOption (formElements ?s1 ! j) [] p"
    by (rule Cons.IH [OF rest d b])
  have keep: "formElements s' ! i = formElements ?s1 ! i"
    using filterLoop_invariant [OF rest d b] ni by simp
  have "formElements ?s1 ! i = unmatchOption (formElements s ! i) [] p"
    using i by (simp add: formElements_putOption)
  moreover have "formElements ?s1 ! j = formElements s ! j" if "j \<in> set is" for j
  proof -
    have "i \<noteq> j" using that ni by auto
    then show ?thesis by (simp add: formElements_putOption)
  qed
  ultimately show ?case using IH keep by simp
qed

text \<open>
  On an empty text the cycle returns and collects every option; and every option that has
  no \<open>onFilterUnmatch\<close> of its own ends with \<open>style.display = 'none'\<close>: step [1] hides it,
  step [2] leaves the loop body, and step [6] does not write \<open>style.display\<close>.
\<close>

proposition empty_input_keeps_hidden:
  assumes "autocomplete s \<noteq> ''none''"
  shows "isNormal (handleAutocompletion engine s [] p)"
    and "visibleOptionsOf engine s [] p = [0 ..< length (formElements s)]"
    and "\<forall>i < length (formElements s). onFilterUnmatch (formElements s ! i) = None \<longrightarrow>
           display (view (formElements (stateOf (handleAutocompletion engine s [] p)) ! i)) = ''none''"
proof -
  show n: "isNormal (handleAutocompletion engine s [] p)"
    by (rule literal_text_completes) simp
  then obtain s' where s': "handleAutocompletion engine s [] p = Normal s'"
    by (cases "handleAutocompletion engine s [] p") simp_all
  from s' assms obtain s1 vis haf where
    loop: "filterLoop engine s [] p = Normal (s1, vis, haf)"
    by (auto simp: handleAutocompletion_def split: completion.splits prod.splits)
  show "visibleOptionsOf engine s [] p = [0 ..< length (formElements s)]"
    using visible_options_enabled(1) [OF s' assms] by (simp add: shownAt_def)
  have fe: "formElements s' = enableVisible vis 0 (length vis) (formElements s1)"
    using s' assms loop
    by (auto simp: handleAutocompletion_def Let_def updatePopper_def split: option.splits)
  have opts: "\<forall>i \<in> set [0 ..< length (formElements s)].
                formElements s1 ! i = unmatchOption (formElements s ! i) [] p"
    using loop unfolding filterLoop_def by (intro filterLoop_empty_options) simp_all
  show "\<forall>i < length (formElements s). onFilterUnmatch (formElements s ! i) = None \<longrightarrow>
           display (view (formElements (stateOf (handleAutocompletion engine s [] p)) ! i)) = ''none''"
    using opts by (simp add: s' fe display_enableVisible display_unmatchOption)
qed

subsection \<open>The set-up of the overlay\<close>

lemma listboxNode_keeps:
  assumes "keeps s s'"
  shows "listboxNode s' = listboxNode s"
proof -
  have "childNodes s' = childNodes s"
    and "(case overlayCtrl s' of None \<Rightarrow> None | Some ctrl \<Rightarrow> contentNode ctrl)
          = (case overlayCtrl s of None \<Rightarrow> None | Some ctrl \<Rightarrow> contentNode ctrl)"
    using assms by (simp_all add: keeps_def)
  then show ?thesis unfolding listboxNode_def by (simp cong: option.case_cong)
qed

text \<open>
  \<open>_setupOverlayCtrl\<close> runs the first filtering cycle between the base class's set-up and
  \<open>__setupCombobox\<close>. When the nodes are there after the base class's part and the cached
  input value has no syntax character (it is empty on a new widget), the whole set-up
  returns and the attributes are as \<open>__setupCombobox\<close> writes them.
\<close>

lemma setupOverlayCtrl_aria:
  assumes "comboboxNode (super s) = Some c" and "listboxNode (super s) = Some l"
    and "labelNode (super s) = Some lb"
    and "list_all (\<lambda>ch. \<not> syntaxCharacter ch) (cboxInputValue (super s))"
  shows "isNormal (setupOverlayCtrl super engine s)"
    and "comboboxAttribute (stateOf (setupOverlayCtrl super engine s)) ''role'' = Some ''combobox''"
    and "comboboxAttribute (stateOf (setupOverlayCtrl super engine s)) ''aria-haspopup''
           = Some ''listbox''"
    and "comboboxAttribute (stateOf (setupOverlayCtrl super engine s)) ''aria-expanded''
           = Some ''false''"
    and "comboboxAttribute (stateOf (setupOverlayCtrl super engine s)) ''aria-owns''
           = Some (nodeId l)"
    and "inputAttributes (inputNode (stateOf (setupOverlayCtrl super engine s))) ''aria-autocomplete''
           = Some (autocomplete (super s))"
    and "inputAttributes (inputNode (stateOf (setupOverlayCtrl super engine s))) ''aria-controls''
           = Some (nodeId l)"
    and "inputAttributes (inputNode (stateOf (setupOverlayCtrl super engine s))) ''aria-labelledby''
           = Some (nodeId lb)"
proof -
  have "isNormal (initFilterListbox engine (super s))"
    unfolding initFilterListbox_def by (rule literal_text_completes [OF assms(4)])
  then obtain s1 where s1: "initFilterListbox engine (super s) = Normal s1"
    by (cases "initFilterListbox engine (super s)") simp_all
  have k: "keeps (super s) s1"
    using keeps_handleAutocompletion [of "super s" engine "cboxInputValue (super s)"
        "prevCboxValueNonSelected (super s)"] s1
    by (simp add: initFilterListbox_def)
  have n: "comboboxNode s1 = Some c" "labelNode s1 = Some lb" "autocomplete s1 = autocomplete (super s)"
    using k assms(1,3) by (simp_all add: keeps_def)
  have l: "listboxNode s1 = Some l" using listboxNode_keeps [OF k] assms(2) by simp
  have r: "setupOverlayCtrl super engine s = setupCombobox s1"
    using s1 by (simp add: setupOverlayCtrl_def)
  show "isNormal (setupOverlayCtrl super engine s)"
    and "comboboxAttribute (stateOf (setupOverlayCtrl super engine s)) ''role'' = Some ''combobox''"
    and "comboboxAttribute (stateOf (setupOverlayCtrl super engine s)) ''aria-haspopup''
           = Some ''listbox''"
    and "comboboxAttribute (stateOf (setupOverlayCtrl super engine s)) ''aria-expanded''
           = Some ''false''"
    and "comboboxAttribute (stateOf (setupOverlayCtrl super engine s)) ''aria-owns''
           = Some (nodeId l)"
    and "inputAttributes (inputNode (stateOf (setupOverlayCtrl super engine s))) ''aria-autocomplete''
           = Some (autocomplete (super s))"
    and "inputAttributes (inputNode (stateOf (setupOverlayCtrl super engine s))) ''aria-controls''
           = Some (nodeId l)"
    and "inputAttributes (inputNode (stateOf (setupOverlayCtrl super engine s))) ''aria-labelledby''
           = Some (nodeId lb)"
    unfolding r setupCombobox_present [OF n(1) l n(2)]
    by (simp_all add: comboboxAttribute_def setNodeAttribute_def n(3))
qed

section \<open>Where the code leaves the specification\<close>

subsection \<open>A typed text that is no pattern\<close>

text \<open>
  C1. In a cycle with \<open>autocomplete = 'both'\<close>, a text that is not empty and the user adding
  characters, the first option in list order that passes the filter and begins with the
  typed text is to give the text box its \<open>choiceValue\<close>, selected from the end of the typed
  text, and to become the active index. The cycle below does not: the user typed \<open>+\<close> into an
  empty text box over the one option \<open>+31\<close>. The option passes the filter and begins with the
  text, and \<open>_onFilterMatch\<close> throws a SyntaxError on the pattern \<open>(+)\<close> before step [5]: the
  text box still holds \<open>+\<close> and no option is active. \<open>closest_match_completed\<close> above is the
  claim for the cycles that return.
\<close>

theorem completion_lost_on_syntax_error:
  "handleAutocompletion engine (typedInto (newCombobox [plainOption ''o1'' ''+31'']) ''+'') ''+'' []
     = Throw SyntaxError
         (stateOf (handleAutocompletion engine
            (typedInto (newCombobox [plainOption ''o1'' ''+31'']) ''+'') ''+'' []))
   \<and> filterOptionCondition ''all'' (plainOption ''o1'' ''+31'') ''+''
   \<and> prefix (toLowerCase ''+'') (toLowerCase (choiceValue (plainOption ''o1'' ''+31'')))
   \<and> inputValue (inputNode (stateOf (handleAutocompletion engine
            (typedInto (newCombobox [plainOption ''o1'' ''+31'']) ''+'') ''+'' []))) = ''+''
   \<and> activeIndex (stateOf (handleAutocompletion engine
            (typedInto (newCombobox [plainOption ''o1'' ''+31'']) ''+'') ''+'' [])) = - 1"
  by (simp add: model_defs Let_def)

text \<open>
  C3. After a run of \<open>_handleAutocompletion\<close> with \<open>autocomplete\<close> other than \<open>'none'\<close>, the
  options collected as visible are to have \<open>aria-posinset\<close> their position counted from 1,
  \<open>aria-setsize\<close> their number and \<open>disabled = false\<close>, and the options that do not match a
  text that is not empty are to be disabled. The run below ends otherwise: the user typed
  \<open>+\<close> over the options \<open>1+1\<close> and \<open>NL\<close>. The first option is collected as visible, then
  \<open>_onFilterMatch\<close> throws on the pattern \<open>(+)\<close>, and neither the rest of the loop nor step
  [6] runs: the first option is left disabled with no position attributes, and the second,
  which does not match, is left enabled. \<open>visible_options_enabled\<close> above is the claim for
  the runs that return.
\<close>

theorem visible_left_disabled_on_syntax_error:
  "handleAutocompletion engine
       (typedInto (newCombobox [plainOption ''o1'' ''1+1'', plainOption ''o2'' ''NL'']) ''+'') ''+'' []
     = Throw SyntaxError
         (stateOf (handleAutocompletion engine
            (typedInto (newCombobox [plainOption ''o1'' ''1+1'', plainOption ''o2'' ''NL'']) ''+'')
            ''+'' []))
   \<and> visibleOptionsOf engine
         (typedInto (newCombobox [plainOption ''o1'' ''1+1'', plainOption ''o2'' ''NL'']) ''+'') ''+'' []
       = [0]
   \<and> map (\<lambda>opt. (disabled (view opt), attributes (view opt) ''aria-posinset'',
                  attributes (view opt) ''aria-setsize''))
        (formElements (stateOf (handleAutocompletion engine
            (typedInto (newCombobox [plainOption ''o1'' ''1+1'', plainOption ''o2'' ''NL'']) ''+'')
            ''+'' [])))
       = [(True, None, None), (False, None, None)]
   \<and> filterOptionCondition ''all'' (plainOption ''o2'' ''NL'') ''+'' = False"
  by (simp add: model_defs Let_def)

subsection \<open>The options of an empty text box\<close>

text \<open>
  C4. On an empty text no filtering is to be applied: every option is to be in the visible
  set, with \<open>aria-posinset\<close> and \<open>aria-setsize\<close> counted over all options and
  \<open>disabled = false\<close>, and no option is to end the cycle with \<open>style.display = 'none'\<close>. The
  first part holds and the last does not. The cycle below runs on the widget as constructed,
  over one option that was shown: the option is collected and enabled, and it ends hidden.
  \<open>empty_input_keeps_hidden\<close> above says so of every option without an \<open>onFilterUnmatch\<close> of
  its own.
\<close>

theorem empty_text_hides_option:
  "isNormal (handleAutocompletion engine (newCombobox [plainOption ''o1'' ''Chard'']) [] [])
   \<and> visibleOptionsOf engine (newCombobox [plainOption ''o1'' ''Chard'']) [] [] = [0]
   \<and> display (view (plainOption ''o1'' ''Chard'')) = []
   \<and> map (\<lambda>opt. (display (view opt), disabled (view opt),
                  attributes (view opt) ''aria-posinset'', attributes (view opt) ''aria-setsize''))
        (formElements (stateOf
           (handleAutocompletion engine (newCombobox [plainOption ''o1'' ''Chard'']) [] [])))
       = [(''none'', False, Some ''1'', Some ''1'')]"
  by (simp add: model_defs Let_def decimal.simps)

subsection \<open>Absent nodes and an absent checked option\<close>

text \<open>
  The guarded reads: without a selection display, \<open>connectedCallback\<close> does what the base
  class does and no more; without a combobox node, \<open>__setComboboxDisabledAndReadOnly\<close> does
  nothing. The read of \<open>formElements[checkedIndex]\<close> has no guard.
\<close>

lemma connectedCallback_no_selection_display:
  "selectionDisplayNode (super s) = None \<Longrightarrow> connectedCallback super s = super s"
  by (simp add: connectedCallback_def)

lemma setComboboxDisabledAndReadOnly_no_node:
  "comboboxNode s = None \<Longrightarrow> setComboboxDisabledAndReadOnly s = s"
  by (simp add: setComboboxDisabledAndReadOnly_def)

lemma updated_no_selection_display:
  assumes "selectionDisplayNode (super changedProperties s) = None"
  shows "selectionDisplayNode (stateOf (updated super engine changedProperties s)) = None"
  by (rule updated_frame(5)) (simp add: assms setInputAttribute_def)

lemma syncChecked_in_range:
  "\<not> multipleChoice s \<Longrightarrow> 0 \<le> checkedIndex s \<Longrightarrow> checkedIndex s < int (length (formElements s))
     \<Longrightarrow> isNormal (syncCheckedWithTextboxOnInteraction s)"
  by (simp add: syncCheckedWithTextboxOnInteraction_def)

lemma syncChecked_out_of_range:
  "\<not> multipleChoice s \<Longrightarrow> checkedIndex s < 0 \<or> int (length (formElements s)) \<le> checkedIndex s
     \<Longrightarrow> syncCheckedWithTextboxOnInteraction s = Throw TypeError s"
  by (auto simp: syncCheckedWithTextboxOnInteraction_def)

text \<open>
  C5. Every operation is to fail as a silent no-op and not to raise: the callbacks skip their
  work when the selection display or the combobox node is absent, and selecting with Enter or
  a click, not \<open>multipleChoice\<close>, is to complete also when no option is checked. The guards are
  there (the lemmas above); the selection is not silent. Enter on the widget as constructed,
  over one option and with nothing checked (\<open>checkedIndex = -1\<close>), throws a TypeError and
  leaves the widget as it was; so does \<open>__syncCheckedWithTextboxOnInteraction\<close> on a widget
  with no option at all.
\<close>

theorem selection_without_checked_option_throws:
  "listboxOnKeyDown (\<lambda>s. s) ''Enter'' (newCombobox [plainOption ''o1'' ''Chard''])
     = Throw TypeError (newCombobox [plainOption ''o1'' ''Chard''])
   \<and> syncCheckedWithTextboxOnInteraction (newCombobox [])
     = Throw TypeError (newCombobox [])"
  by (simp add: listboxOnKeyDown_def syncCheckedWithTextboxOnInteraction_def newCombobox_def)

subsection \<open>Escape\<close>

lemma escape_closes_and_clears:
  "listboxOnKeyDown super ''Escape'' s =
     Normal ((super s)\<lparr>opened := False, shouldAutocompleteNextUpdate := True,
                       inputNode := (inputNode (super s))\<lparr>inputValue := []\<rparr>,
                       cboxInputValue := []\<rparr>)"
  by (simp add: listboxOnKeyDown_def Let_def)

lemma keyup_opens:
  "\<not> blockListShow s \<Longrightarrow> key \<notin> {''Tab'', ''Esc'', ''Enter''}
     \<Longrightarrow> opened (showOverlay key s)"
  by (simp add: showOverlay_def)

text \<open>
  C8. An Escape keydown on the text box is to close the listbox and to empty the text box and
  the cached input value, and the keyup of the same key press is never to open the listbox
  again. The keydown does its part (\<open>escape_closes_and_clears\<close>). The keyup handler lets the
  keys \<open>Tab\<close>, \<open>Esc\<close> and \<open>Enter\<close> pass and opens the listbox on every other key: the key of the
  keydown case is \<open>Escape\<close>, and it is not among them. Below, the listbox is open over the
  typed text \<open>ch\<close>; the keydown closes it and the keyup of the same key opens it.
\<close>

theorem escape_keyup_reopens:
  "listboxOnKeyDown (\<lambda>s. s) ''Escape'' (typedInto ((newCombobox [])\<lparr>opened := True\<rparr>) ''ch'')
     = Normal (stateOf (listboxOnKeyDown (\<lambda>s. s) ''Escape''
                 (typedInto ((newCombobox [])\<lparr>opened := True\<rparr>) ''ch'')))
   \<and> opened (stateOf (listboxOnKeyDown (\<lambda>s. s) ''Escape''
                 (typedInto ((newCombobox [])\<lparr>opened := True\<rparr>) ''ch''))) = False
   \<and> inputValue (inputNode (stateOf (listboxOnKeyDown (\<lambda>s. s) ''Escape''
                 (typedInto ((newCombobox [])\<lparr>opened := True\<rparr>) ''ch'')))) = []
   \<and> cboxInputValue (stateOf (listboxOnKeyDown (\<lambda>s. s) ''Escape''
                 (typedInto ((newCombobox [])\<lparr>opened := True\<rparr>) ''ch''))) = []
   \<and> opened (showOverlay ''Escape'' (stateOf (listboxOnKeyDown (\<lambda>s. s) ''Escape''
                 (typedInto ((newCombobox [])\<lparr>opened := True\<rparr>) ''ch'')))) = True"
  by (simp add: listboxOnKeyDown_def showOverlay_def newCombobox_def typedInto_def textboxOnInput_def)

subsection \<open>The listeners the class registers\<close>

lemma set_addEventListener: "set (addEventListener ls ty h) = insert (ty, h) (set ls)"
  by (auto simp: addEventListener_def)

lemma set_removeEventListener: "set (removeEventListener ls ty h) = set ls - {(ty, h)}"
  by (auto simp: removeEventListener_def)

lemma listboxNode_comboboxNode_update: "listboxNode (s\<lparr>comboboxNode := x\<rparr>) = listboxNode s"
  by (simp add: listboxNode_def cong: option.case_cong)

lemma setupCombobox_listeners:
  "set (inputListeners (inputNode (stateOf (setupCombobox s))))
     = set (inputListeners (inputNode s))
       \<union> (if isNormal (setupCombobox s)
          then {(''keydown'', ListboxOnKeyDown), (''input'', TextboxOnInput)} else {})"
  "comboboxListeners (stateOf (setupCombobox s)) = comboboxListeners s"
proof -
  have "set (inputListeners (inputNode (stateOf (setupCombobox s))))
     = set (inputListeners (inputNode s))
       \<union> (if isNormal (setupCombobox s)
          then {(''keydown'', ListboxOnKeyDown), (''input'', TextboxOnInput)} else {})
    \<and> comboboxListeners (stateOf (setupCombobox s)) = comboboxListeners s"
  proof (cases "comboboxNode s")
    case None
    then show ?thesis by (simp add: setupCombobox_def)
  next
    case (Some c)
    show ?thesis
    proof (cases "listboxNode s")
      case None
      then show ?thesis
        using Some
        by (simp add: setupCombobox_def Let_def listboxNode_comboboxNode_update
              comboboxListeners_def setNodeAttribute_def)
    next
      case l: (Some l)
      show ?thesis
      proof (cases "labelNode s")
        case None
        then show ?thesis
          using Some l
          by (simp add: setupCombobox_def Let_def listboxNode_comboboxNode_update
                comboboxListeners_def setNodeAttribute_def setInputAttribute_def)
      next
        case lb: (Some lb)
        show ?thesis
          unfolding setupCombobox_present [OF Some l lb]
          using Some
          by (auto simp: set_addEventListener comboboxListeners_def setNodeAttribute_def)
      qed
    qed
  qed
  then show "set (inputListeners (inputNode (stateOf (setupCombobox s))))
     = set (inputListeners (inputNode s))
       \<union> (if isNormal (setupCombobox s)
          then {(''keydown'', ListboxOnKeyDown), (''input'', TextboxOnInput)} else {})"
    and "comboboxListeners (stateOf (setupCombobox s)) = comboboxListeners s"
    by simp_all
qed

lemma setupOpenCloseListeners_listeners:
  "set (comboboxListeners (stateOf (setupOpenCloseListeners super s)))
     = set (comboboxListeners (super s))
       \<union> (if isNormal (setupOpenCloseListeners super s) then {(''keyup'', ShowOverlay)} else {})"
  "inputListeners (inputNode (stateOf (setupOpenCloseListeners super s)))
     = inputListeners (inputNode (super s))"
  by (cases "comboboxNode (super s)";
      simp add: setupOpenCloseListeners_def Let_def comboboxListeners_def set_addEventListener)+

lemma teardown_listeners:
  "set (inputListeners (inputNode (teardownCombobox s)))
     = set (inputListeners (inputNode s))
       - {(''keydown'', ListboxOnKeyDown), (''input'', TextboxOnInput)}"
  "comboboxListeners (teardownCombobox s) = comboboxListeners s"
  "set (comboboxListeners (stateOf (teardownOpenCloseListeners super s)))
     = set (comboboxListeners (super s)) - {(''keyup'', ShowOverlay)}"
  "inputListeners (inputNode (stateOf (teardownOpenCloseListeners super s)))
     = inputListeners (inputNode (super s))"
proof -
  show "set (inputListeners (inputNode (teardownCombobox s)))
     = set (inputListeners (inputNode s))
       - {(''keydown'', ListboxOnKeyDown), (''input'', TextboxOnInput)}"
    by (auto simp: teardownCombobox_def Let_def set_removeEventListener)
  show "comboboxListeners (teardownCombobox s) = comboboxListeners s"
    by (simp add: teardownCombobox_def Let_def comboboxListeners_def)
  show "set (comboboxListeners (stateOf (teardownOpenCloseListeners super s)))
     = set (comboboxListeners (super s)) - {(''keyup'', ShowOverlay)}"
    by (cases "comboboxNode (super s)")
       (simp_all add: teardownOpenCloseListeners_def Let_def comboboxListeners_def
          set_removeEventListener)
  show "inputListeners (inputNode (stateOf (teardownOpenCloseListeners super s)))
     = inputListeners (inputNode (super s))"
    by (cases "comboboxNode (super s)")
       (simp_all add: teardownOpenCloseListeners_def Let_def)
qed

lemma sameListeners_keeps: "keeps s s' \<Longrightarrow> sameListeners s s'"
  by (simp add: keeps_def sameListeners_def comboboxListeners_def)

lemma sameListeners_handleAutocompletion:
  "sameListeners s (stateOf (handleAutocompletion engine s c p))"
  by (rule sameListeners_keeps [OF keeps_handleAutocompletion])

lemma sameListeners_updated:
  "sameListeners (super changedProperties s) (stateOf (updated super engine changedProperties s))"
  unfolding sameListeners_def comboboxListeners_def updated_frame(6,7)
  by (simp add: setInputAttribute_def)

lemma sameListeners_handlers:
  "sameListeners s (showOverlay key s)"
  "sameListeners s (textboxOnInput v s)"
  "sameListeners s (stateOf (syncCheckedWithTextboxOnInteraction s))"
  "sameListeners (super s) (stateOf (listboxOnKeyDown super key s))"
  "sameListeners (super s) (stateOf (listboxOnClick super s))"
  "sameListeners (super s) (onChildActiveChanged super target s)"
  "sameListeners (super s) (connectedCallback super s)"
  by (simp_all add: showOverlay_def textboxOnInput_def syncCheckedWithTextboxOnInteraction_def
        listboxOnKeyDown_def listboxOnClick_def onChildActiveChanged_def connectedCallback_def
        setInputAttribute_def sameListeners_def comboboxListeners_def Let_def
        split: option.splits)

lemma sameListeners_requestUpdateInternal:
  "sameListeners (super s) (requestUpdateInternal super name s)"
  by (simp add: requestUpdateInternal_def setComboboxDisabledAndReadOnly_def setNodeAttribute_def
        sameListeners_def comboboxListeners_def Let_def split: option.splits)

text \<open>
  C9, as the code has it. The class registers three listeners, and each has its node and its
  handler. \<open>__setupCombobox\<close>, when it returns, has added \<open>_listboxOnKeyDown\<close> for \<open>keydown\<close> and
  \<open>_textboxOnInput\<close> for \<open>input\<close> to the listeners of the input node, and none when it throws;
  it leaves the listeners of the combobox node. \<open>_setupOpenCloseListeners\<close>, when it returns,
  has added \<open>__showOverlay\<close> for \<open>keyup\<close> to the listeners the base class left on the combobox
  node, the overlay's invoker, and none when it throws; it leaves the listeners of the input
  node. \<open>__teardownCombobox\<close> and \<open>_teardownOpenCloseListeners\<close> remove these three and no
  other. Every other method of the class leaves the listeners of both nodes as they were, or
  as its base-class method left them: \<open>_handleAutocompletion\<close>, \<open>updated\<close>,
  \<open>connectedCallback\<close>, \<open>requestUpdateInternal\<close>, the three handlers \<open>_textboxOnInput\<close>,
  \<open>_listboxOnKeyDown\<close> and \<open>__showOverlay\<close>, \<open>_listboxOnClick\<close> and \<open>_onChildActiveChanged\<close>.
\<close>

theorem listeners_registered:
  "set (inputListeners (inputNode (stateOf (setupCombobox s))))
     = set (inputListeners (inputNode s))
       \<union> (if isNormal (setupCombobox s)
          then {(''keydown'', ListboxOnKeyDown), (''input'', TextboxOnInput)} else {})
   \<and> comboboxListeners (stateOf (setupCombobox s)) = comboboxListeners s
   \<and> set (comboboxListeners (stateOf (setupOpenCloseListeners super s)))
     = set (comboboxListeners (super s))
       \<union> (if isNormal (setupOpenCloseListeners super s) then {(''keyup'', ShowOverlay)} else {})
   \<and> inputListeners (inputNode (stateOf (setupOpenCloseListeners super s)))
     = inputListeners (inputNode (super s))
   \<and> set (inputListeners (inputNode (teardownCombobox s)))
     = set (inputListeners (inputNode s))
       - {(''keydown'', ListboxOnKeyDown), (''input'', TextboxOnInput)}
   \<and> comboboxListeners (teardownCombobox s) = comboboxListeners s
   \<and> set (comboboxListeners (stateOf (teardownOpenCloseListeners super s)))
     = set (comboboxListeners (super s)) - {(''keyup'', ShowOverlay)}
   \<and> inputListeners (inputNode (stateOf (teardownOpenCloseListeners super s)))
     = inputListeners (inputNode (super s))
   \<and> sameListeners s (stateOf (handleAutocompletion engine s curValue prevValue))
   \<and> sameListeners (superUpdated changedProperties s)
         (stateOf (updated superUpdated engine changedProperties s))
   \<and> sameListeners (super s) (connectedCallback super s)
   \<and> sameListeners (super s) (requestUpdateInternal super name s)
   \<and> sameListeners s (textboxOnInput targetValue s)
   \<and> sameListeners (super s) (stateOf (listboxOnKeyDown super key s))
   \<and> sameListeners s (showOverlay key s)
   \<and> sameListeners (super s) (stateOf (listboxOnClick super s))
   \<and> sameListeners (super s) (onChildActiveChanged super target s)"
  by (simp only: setupCombobox_listeners setupOpenCloseListeners_listeners teardown_listeners
        sameListeners_handleAutocompletion sameListeners_updated sameListeners_handlers
        sameListeners_requestUpdateInternal simp_thms)

text \<open>
  On the widget as constructed, which has no listener yet: both set-up methods return, the
  input node then has the two listeners of \<open>__setupCombobox\<close>, in the order of registration,
  and the combobox node the one of \<open>_setupOpenCloseListeners\<close>.
\<close>

theorem listeners_registered_witness:
  "isNormal (setupCombobox (newCombobox []))
   \<and> inputListeners (inputNode (stateOf (setupCombobox (newCombobox []))))
       = [(''keydown'', ListboxOnKeyDown), (''input'', TextboxOnInput)]
   \<and> set (inputListeners (inputNode (stateOf (setupCombobox (newCombobox [])))))
       = {(''keydown'', ListboxOnKeyDown), (''input'', TextboxOnInput)}
   \<and> comboboxListeners (stateOf (setupCombobox (newCombobox []))) = []
   \<and> isNormal (setupOpenCloseListeners (\<lambda>s. s) (newCombobox []))
   \<and> set (comboboxListeners (stateOf (setupOpenCloseListeners (\<lambda>s. s) (newCombobox []))))
       = {(''keyup'', ShowOverlay)}
   \<and> inputListeners (inputNode (stateOf (setupOpenCloseListeners (\<lambda>s. s) (newCombobox []))))
       = []"
proof -
  have n: "comboboxNode (newCombobox []) = Some (plainNode ''combobox'' [])"
    "labelNode (newCombobox []) = Some (plainNode ''label-1'' ''label'')"
    by (simp_all add: newCombobox_def)
  have a: "isNormal (setupCombobox (newCombobox []))"
    and a': "inputListeners (inputNode (stateOf (setupCombobox (newCombobox []))))
       = [(''keydown'', ListboxOnKeyDown), (''input'', TextboxOnInput)]"
    using setupCombobox_present [OF n(1) listboxNode_newCombobox n(2)]
    by (simp_all add: addEventListener_def newCombobox_def)
  have b: "isNormal (setupOpenCloseListeners (\<lambda>s. s) (newCombobox []))"
    using n(1) by (simp add: setupOpenCloseListeners_def)
  have e: "inputListeners (inputNode (newCombobox [])) = []"
    "comboboxListeners (newCombobox []) = []"
    by (simp_all add: comboboxListeners_def newCombobox_def plainNode_def)
  show ?thesis
    using listeners_registered [of "newCombobox []" "\<lambda>s. s"] a a' b e
    by simp
qed

text \<open>
  C9, as it is stated: the handlers are for \<open>input\<close>, \<open>keydown\<close> and \<open>click\<close> only, and no
  handler for another event type, such as \<open>keyup\<close>, is registered. On the widget as
  constructed \<open>_setupOpenCloseListeners\<close> returns, and the combobox node then has the
  listener \<open>__showOverlay\<close> for \<open>keyup\<close>.
\<close>

theorem keyup_listener_registered:
  "isNormal (setupOpenCloseListeners (\<lambda>s. s) (newCombobox []))
   \<and> comboboxListeners (stateOf (setupOpenCloseListeners (\<lambda>s. s) (newCombobox [])))
       = [(''keyup'', ShowOverlay)]
   \<and> \<not> listenedEventTypes (stateOf (setupOpenCloseListeners (\<lambda>s. s) (newCombobox [])))
         \<subseteq> {''input'', ''keydown'', ''click''}"
  by (simp add: setupOpenCloseListeners_def newCombobox_def plainNode_def addEventListener_def
        listenedEventTypes_def comboboxListeners_def)

end
